theory Spec2Isabelle
  imports Complex_Main "HOL-Library.AList" "HOL-Library.Multiset"
begin

section \<open>Errors, devices and tensors\<close>

text \<open>
  The exceptions a call of the modelled functions can end in.  \<open>RuntimeError\<close> is what
  \<^verbatim>\<open>torch.cat\<close> and \<^verbatim>\<open>Tensor.reshape\<close> raise, \<open>ZeroDivisionError\<close>, \<open>AttributeError\<close>,
  \<open>TypeError\<close>, \<open>KeyError\<close>, \<open>IndexError\<close> and \<open>NotImplementedError\<close> are Python's own, and
  \<open>ExternalError\<close> stands for whatever a collaborator outside the repository
  (\<^verbatim>\<open>Batch.from_data_list\<close>, the file readers) raises.
  \<open>ConfigurationError\<close> and \<open>ShapeMismatchError\<close> are the names of the design document's
  error taxonomy; the source defines neither class and no function below returns them.
\<close>

datatype error =
    RuntimeError
  | ZeroDivisionError
  | AttributeError
  | TypeError
  | KeyError
  | NotImplementedError
  | IndexError
  | ExternalError
  | ConfigurationError
  | ShapeMismatchError

text \<open>
  A tensor is its contents together with the device that holds it; \<^verbatim>\<open>torch.tensor\<close> and
  \<^verbatim>\<open>torch.cat\<close> of CPU tensors create on the CPU, \<^verbatim>\<open>t.to(d)\<close> gives the same contents on
  \<open>d\<close>.  A one-dimensional tensor has a list as contents, a two-dimensional one a list of
  rows.  Entries are unbounded integers: the values stored here are labels, node counts,
  episode indices and \<open>\<plusminus>1\<close>, far from the 64-bit limits.
\<close>

datatype device = CPU | Accelerator nat

record 'a tensor =
  elems :: 'a
  device :: device

definition torch_tensor :: "'a \<Rightarrow> 'a tensor" where
  "torch_tensor xs = \<lparr>elems = xs, device = CPU\<rparr>"

definition tensor_to :: "'a tensor \<Rightarrow> device \<Rightarrow> 'a tensor" where
  "tensor_to t d = t\<lparr>device := d\<rparr>"

text \<open>\<^verbatim>\<open>torch.cat(ts, dim=-1)\<close> of one-dimensional tensors; an empty list of tensors is refused.\<close>

definition torch_cat :: "int list list \<Rightarrow> error + int list tensor" where
  "torch_cat ts = (if ts = [] then Inl RuntimeError else Inr (torch_tensor (concat ts)))"

text \<open>
  \<^verbatim>\<open>t.reshape(-1, n)\<close> of a one-dimensional tensor: row \<open>i\<close> holds the entries
  \<open>i * n, \<dots>, i * n + n - 1\<close>.  The call is refused when \<open>n\<close> is 0 or does not divide the
  number of entries.
\<close>

definition rows_of :: "nat \<Rightarrow> 'a list \<Rightarrow> 'a list list" where
  "rows_of n xs = map (\<lambda>i. take n (drop (i * n) xs)) [0..<length xs div n]"

definition reshape :: "int list tensor \<Rightarrow> nat \<Rightarrow> error + int list list tensor" where
  "reshape t n =
     (if n = 0 \<or> length (elems t) mod n \<noteq> 0 then Inl RuntimeError
      else Inr \<lparr>elems = rows_of n (elems t), device = device t\<rparr>)"

text \<open>
  \<^verbatim>\<open>t.argmax(dim=-1)\<close> of a two-dimensional tensor: per row, the index of the first
  occurrence of the row's maximum.
\<close>

definition argmax_row :: "int list \<Rightarrow> nat" where
  "argmax_row xs =
     (case xs of [] \<Rightarrow> 0
      | x # r \<Rightarrow> length (takeWhile (\<lambda>v. v \<noteq> fold max r x) xs))"

definition argmax :: "int list list tensor \<Rightarrow> nat list tensor" where
  "argmax t = \<lparr>elems = map argmax_row (elems t), device = device t\<rparr>"

section \<open>Episodes and episode batches (\<^verbatim>\<open>fs_grl/data/episode.py\<close>)\<close>

text \<open>
  \<^verbatim>\<open>Data\<close> is the graph record of the graph library; the functions below read its label
  \<^verbatim>\<open>y\<close> (a one-element tensor) and its \<^verbatim>\<open>num_nodes\<close>.
\<close>

record graph =
  y :: int
  num_nodes :: nat

text \<open>The three counts are modelled as naturals (the design document requires them positive).\<close>

record EpisodeHParams =
  num_classes_per_episode :: nat
  num_supports_per_class :: nat
  num_queries_per_class :: nat

text \<open>
  \<^verbatim>\<open>EpisodeBatch\<close> is a subclass of \<^verbatim>\<open>Episode\<close> that stores batched graphs where the
  episode stores lists of graphs, and a label tensor where the episode stores a list; the
  record is therefore polymorphic in the two types.
\<close>

record ('g, 'l) Episode =
  supports :: 'g
  queries :: 'g
  labels :: 'l
  episode_hparams :: EpisodeHParams

record ('g, 'l) EpisodeBatch = "('g, 'l) Episode" +
  assignment_vectors :: "string \<rightharpoonup> nat list list tensor"
  supports_len :: "nat list tensor"
  queries_len :: "nat list tensor"
  num_episodes :: nat
  cosine_targets :: "int list tensor"
  label_targets :: "nat list tensor"
  batch_size :: real

type_synonym episode = "(graph list, int list) Episode"

text \<open>
  \<^verbatim>\<open>EpisodeBatch.__init__\<close>.  \<open>len_batch\<close> is \<^verbatim>\<open>len\<close> of the graph library's batch object, a
  parameter since the library is not part of the repository.  The quotient is Python's
  true division, which raises on a zero divisor.
\<close>

definition EpisodeBatch_init ::
  "('b \<Rightarrow> nat) \<Rightarrow> 'b \<Rightarrow> 'b \<Rightarrow> int list tensor \<Rightarrow> EpisodeHParams \<Rightarrow>
   (string \<rightharpoonup> nat list list tensor) \<Rightarrow> nat list tensor \<Rightarrow> nat list tensor \<Rightarrow> nat \<Rightarrow>
   int list tensor \<Rightarrow> nat list tensor \<Rightarrow> error + ('b, int list tensor) EpisodeBatch" where
  "EpisodeBatch_init len_batch supports' queries' labels' hp av slen qlen n ct lt =
     (if num_supports_per_class hp * num_classes_per_episode hp = 0 then Inl ZeroDivisionError
      else Inr \<lparr>supports = supports', queries = queries', labels = labels',
                episode_hparams = hp, assignment_vectors = av, supports_len = slen,
                queries_len = qlen, num_episodes = n, cosine_targets = ct,
                label_targets = lt,
                batch_size = real (len_batch supports') /
                  real (num_supports_per_class hp * num_classes_per_episode hp)\<rparr>)"

text \<open>
  One entry of the cosine targets: \<^verbatim>\<open>((query.y == label) * 2 - 1).long()\<close>, a one-element
  tensor.
\<close>

definition cosine_target :: "graph \<Rightarrow> int \<Rightarrow> int list" where
  "cosine_target query label = [(if y query = label then 1 else 0) * 2 - 1]"

text \<open>
  \<^verbatim>\<open>EpisodeBatch.from_episode_list\<close>.  \<open>from_data_list\<close> is the graph library's
  \<^verbatim>\<open>Batch.from_data_list\<close> (\<open>None\<close> when it raises), a parameter like \<open>len_batch\<close>.
  \<^verbatim>\<open>itertools.product(queries, labels)\<close> is \<^const>\<open>List.product\<close>: the first component
  varies slowest.
\<close>

definition from_episode_list ::
  "(graph list \<Rightarrow> 'b option) \<Rightarrow> ('b \<Rightarrow> nat) \<Rightarrow> episode list \<Rightarrow> EpisodeHParams \<Rightarrow>
   error + ('b, int list tensor) EpisodeBatch" where
  "from_episode_list from_data_list len_batch episode_list hp =
     (let supports' = concat (map supports episode_list);
          queries' = concat (map queries episode_list);
          labels' = concat (map labels episode_list)
      in case from_data_list supports' of None \<Rightarrow> Inl ExternalError
         | Some supports_batch \<Rightarrow>
      (case from_data_list queries' of None \<Rightarrow> Inl ExternalError
         | Some queries_batch \<Rightarrow>
      (let labels_batch = torch_tensor labels';
           K = num_supports_per_class hp;
           C = num_classes_per_episode hp;
           Q = num_queries_per_class hp;
           batch_size' = length episode_list;
           supports_len' = torch_tensor
             (map (\<lambda>episode. sum_list (map num_nodes (supports episode))) episode_list);
           queries_len' = torch_tensor
             (map (\<lambda>episode. sum_list (map num_nodes (queries episode))) episode_list);
           av = [''support'' \<mapsto> torch_tensor (map (\<lambda>i. replicate (K * C) i) [0..<batch_size']),
                 ''queries'' \<mapsto> torch_tensor (map (\<lambda>i. replicate (Q * C) i) [0..<batch_size'])]
       in case torch_cat
                 (concat (map (\<lambda>episode.
                    map (\<lambda>(query, label). cosine_target query label)
                      (List.product (queries episode) (labels episode))) episode_list))
          of Inl e \<Rightarrow> Inl e
          | Inr cosine_targets' \<Rightarrow>
       (case reshape cosine_targets' (num_classes_per_episode hp) of Inl e \<Rightarrow> Inl e
          | Inr targets \<Rightarrow>
        EpisodeBatch_init len_batch supports_batch queries_batch labels_batch hp av
          supports_len' queries_len' batch_size' cosine_targets' (argmax targets)))))"

text \<open>
  \<^verbatim>\<open>EpisodeBatch.to\<close> assigns five attributes of the object; the model returns the object
  after the call.  \<open>batch_to\<close> is the \<^verbatim>\<open>to\<close> method of the graph library's batch.
\<close>

definition "to" ::
  "('b \<Rightarrow> device \<Rightarrow> 'b) \<Rightarrow> ('b, int list tensor) EpisodeBatch \<Rightarrow> device \<Rightarrow>
   ('b, int list tensor) EpisodeBatch" where
  "to batch_to self dev =
     self\<lparr>supports := batch_to (supports self) dev,
          queries := batch_to (queries self) dev,
          cosine_targets := tensor_to (cosine_targets self) dev,
          label_targets := tensor_to (label_targets self) dev,
          labels := tensor_to (labels self) dev\<rparr>"

section \<open>Metadata and data modules (\<^verbatim>\<open>fs_grl/data/datamodule.py\<close>)\<close>

subsection \<open>\<^verbatim>\<open>MetaData\<close>\<close>

text \<open>The values \<^verbatim>\<open>json.dumps\<close> writes and \<^verbatim>\<open>json.loads\<close> reads, as far as the metadata needs them.\<close>

datatype json = JInt int | JStr string | JList "json list" | JObj "(string \<times> json) list"

text \<open>
  A dictionary whose order of keys matters is an association list with one entry per
  key: \<^const>\<open>map_of\<close> reads it and \<^const>\<open>AList.update\<close> stores a value as Python does,
  in place for a key that is present and at the end for a new one.
\<close>

record MetaData =
  classes_to_label_dict :: "(string \<times> int) list"
  feature_dim :: int
  num_classes :: nat
  episode_hparams :: EpisodeHParams
  classes_split :: "(string \<times> string list) list"

definition MetaData_init ::
  "(string \<times> int) list \<Rightarrow> int \<Rightarrow> EpisodeHParams \<Rightarrow> (string \<times> string list) list \<Rightarrow> MetaData" where
  "MetaData_init class_to_label_dict' feature_dim' episode_hparams' classes_split' =
     \<lparr>classes_to_label_dict = class_to_label_dict', feature_dim = feature_dim',
      num_classes = length class_to_label_dict', episode_hparams = episode_hparams',
      classes_split = classes_split'\<rparr>"

text \<open>
  Attribute lookup on an instance of the dataclass \<^verbatim>\<open>EpisodeHParams\<close>, for the names its
  class body declares: three integer fields and no method.  (The methods that
  \<^verbatim>\<open>@dataclass\<close> generates have double-underscore names and are left out.)
\<close>

datatype attr = IntAttr int | Method "EpisodeHParams \<Rightarrow> json"

definition getattr :: "EpisodeHParams \<Rightarrow> string \<Rightarrow> attr option" where
  "getattr obj name =
     (if name = ''num_classes_per_episode'' then Some (IntAttr (int (num_classes_per_episode obj)))
      else if name = ''num_supports_per_class'' then Some (IntAttr (int (num_supports_per_class obj)))
      else if name = ''num_queries_per_class'' then Some (IntAttr (int (num_queries_per_class obj)))
      else None)"

text \<open>
  \<^verbatim>\<open>MetaData.save\<close>.  The file system maps a path to the JSON value stored there
  (\<^verbatim>\<open>json.loads\<close> of \<^verbatim>\<open>json.dumps\<close> gives back a value of type \<^typ>\<open>json\<close>).  The dictionary
  \<^verbatim>\<open>data\<close> is built entry by entry; the third entry calls \<^verbatim>\<open>self.episode_hparams.as_dict()\<close>,
  and only then is the file written.
\<close>

definition save :: "MetaData \<Rightarrow> string \<Rightarrow> (string \<rightharpoonup> json) \<Rightarrow> error + (string \<rightharpoonup> json)" where
  "save self dst_path fs =
     (case getattr (episode_hparams self) ''as_dict'' of
        None \<Rightarrow> Inl AttributeError
      | Some (IntAttr _) \<Rightarrow> Inl TypeError
      | Some (Method as_dict) \<Rightarrow>
          let data = JObj
            [(''classes_to_label_dict'',
                JObj (map (\<lambda>(k, v). (k, JInt v)) (classes_to_label_dict self))),
             (''feature_dim'', JInt (feature_dim self)),
             (''episode_hparams'', as_dict (episode_hparams self)),
             (''classes_split'',
                JObj (map (\<lambda>(k, v). (k, JList (map JStr v))) (classes_split self)))]
          in Inr (fs(dst_path @ ''/data.json'' \<mapsto> data)))"

subsection \<open>The object store\<close>

text \<open>
  The graphs of a data module are objects shared between its lists, and
  \<^verbatim>\<open>convert_to_local_labels\<close> writes to them; a sample is therefore a reference into a store
  of graphs.
\<close>

type_synonym ref = nat
type_synonym heap = "ref \<Rightarrow> graph"

subsection \<open>Helpers from Python and NumPy\<close>

text \<open>\<^verbatim>\<open>itertools.groupby\<close>: maximal runs of consecutive elements with equal keys.\<close>

function groupby :: "('a \<Rightarrow> 'k) \<Rightarrow> 'a list \<Rightarrow> ('k \<times> 'a list) list" where
  "groupby f [] = []"
| "groupby f (x # xs) =
     (f x, x # takeWhile (\<lambda>z. f z = f x) xs) # groupby f (dropWhile (\<lambda>z. f z = f x) xs)"
  by pat_completeness auto
termination
  by (relation "measure (\<lambda>(f, xs). length xs)") (auto simp: length_dropWhile_le less_Suc_eq_le)

text \<open>A dictionary comprehension or literal: the items are stored one after the other.\<close>

definition dict_of_items :: "('k \<times> 'v) list \<Rightarrow> ('k \<times> 'v) list" where
  "dict_of_items kvs = foldl (\<lambda>d (k, v). AList.update k v d) [] kvs"

text \<open>The slices \<^verbatim>\<open>xs[:u]\<close> and \<^verbatim>\<open>xs[u:]\<close>; a negative bound counts from the end.\<close>

definition slice_upto :: "'a list \<Rightarrow> int \<Rightarrow> 'a list" where
  "slice_upto xs u = (if u < 0 then take (length xs - nat (- u)) xs else take (nat u) xs)"

definition slice_from :: "'a list \<Rightarrow> int \<Rightarrow> 'a list" where
  "slice_from xs u = (if u < 0 then drop (length xs - nat (- u)) xs else drop (nat u) xs)"

text \<open>\<^verbatim>\<open>[data_list[idx] for idx in idxs]\<close>; an index beyond the list raises.\<close>

definition index_all :: "'a list \<Rightarrow> nat list \<Rightarrow> error + 'a list" where
  "index_all xs idxs =
     (if list_all (\<lambda>i. i < length xs) idxs then Inr (map (nth xs) idxs) else Inl IndexError)"

text \<open>
  Modelled from the spec: \<^verbatim>\<open>flatten\<close> of \<^verbatim>\<open>fs_grl.data.utils\<close> is not among the sources.  The
  design document (4.1) has the graphs whose label is a base label form one group and
  those with a novel label another; the lists of the chosen labels are joined in order.
\<close>

definition flatten :: "'a list list \<Rightarrow> 'a list" where
  "flatten xss = concat xss"

subsection \<open>Datasets\<close>

text \<open>
  The result of \<^verbatim>\<open>split_query_support\<close>: a dictionary with the keys \<^verbatim>\<open>query_idxs\<close> and
  \<^verbatim>\<open>support_idxs\<close> when the split is read from a file, with the keys \<^verbatim>\<open>supports\<close> and
  \<^verbatim>\<open>queries\<close> when it is made on the fly.
\<close>

datatype 'a query_support_split =
    QuerySupportIdxs (query_idxs: "nat list") (support_idxs: "nat list")
  | SupportsQueries (support_samples: "'a list") (query_samples: "'a list")

datatype 'a samples = SampleList "'a list" | SampleSplit "'a query_support_split"

text \<open>
  Modelled from the spec: the dataset classes of \<^verbatim>\<open>fs_grl.data.dataset\<close> are not among the
  sources.  A dataset is the record of the arguments its constructor is called with, in
  the order the source passes them.  The map variant draws its episodes in its
  constructor (design document, 4.3), so its record starts with the object store the
  constructor sees.  A constructor can refuse its arguments (the design document has
  both episodic variants reject a number of episodes that is not positive, and drawing
  an episode fail when classes or samples are too few); what it refuses is the parameter
  \<open>raises\<close> of \<open>new_dataset\<close>.
\<close>

datatype dataset =
    IterableEpisodicDataset "ref samples" int "(string \<times> int) list" "int list" EpisodeHParams bool
  | MapEpisodicDataset heap "ref list" int "int list" "(string \<times> int) list" EpisodeHParams bool
  | TransferSourceDataset "ref list"

definition new_dataset :: "(dataset \<Rightarrow> error option) \<Rightarrow> dataset \<Rightarrow> error + dataset" where
  "new_dataset raises d = (case raises d of Some e \<Rightarrow> Inl e | None \<Rightarrow> Inr d)"

subsection \<open>\<^verbatim>\<open>GraphFewShotDataModule\<close>\<close>

text \<open>
  The attributes the modelled methods read or write; the loader settings
  (\<^verbatim>\<open>num_workers\<close>, \<^verbatim>\<open>batch_size\<close>, \<^verbatim>\<open>pin_memory\<close>) are left out.  The ratio is a real
  number; the source holds it as a binary floating-point number.
\<close>

record datamodule =
  dataset_name :: string
  data_dir :: string
  classes_split_path :: "string option"
  query_support_split_path :: "string option"
  episode_hparams :: EpisodeHParams
  num_train_episodes :: int
  num_test_episodes :: int
  support_ratio :: real
  separated_query_support :: bool
  train_dataset :: "dataset option"
  val_datasets :: "dataset list option"
  test_datasets :: "dataset list option"
  classes_split :: "(string \<times> string list) list"
  base_classes :: "string list"
  novel_classes :: "string list"
  data_list :: "ref list"
  class_to_label_dict :: "(string \<times> int) list"
  labels_split :: "(string \<times> int list) list"
  base_labels :: "int list"
  novel_labels :: "int list"
  data_list_by_label :: "(int \<times> ref list) list"

record transfer_datamodule = datamodule +
  train_val_split_ratio :: real

text \<open>
  \<^verbatim>\<open>get_classes_split\<close>.  \<open>read_json\<close> is \<^verbatim>\<open>json.loads(Path(p).read_text())\<close>, the reading of
  a file outside the model.
\<close>

definition get_classes_split ::
  "(string \<Rightarrow> error + (string \<times> string list) list) \<Rightarrow> string option \<Rightarrow>
   error + (string \<times> string list) list" where
  "get_classes_split read_json classes_split_path' =
     (case classes_split_path' of
        Some path \<Rightarrow> read_json path
      | None \<Rightarrow> Inl NotImplementedError)"

text \<open>\<^verbatim>\<open>[self.class_to_label_dict[stage_cls] for stage_cls in classes]\<close>.\<close>

fun lookup_labels :: "(string \<times> int) list \<Rightarrow> string list \<Rightarrow> error + int list" where
  "lookup_labels d [] = Inr []"
| "lookup_labels d (c # cs) =
     (case map_of d c of None \<Rightarrow> Inl KeyError
      | Some l \<Rightarrow> (case lookup_labels d cs of Inl e \<Rightarrow> Inl e | Inr ls \<Rightarrow> Inr (l # ls)))"

definition get_labels_split ::
  "(string \<times> int) list \<Rightarrow> string list \<Rightarrow> string list \<Rightarrow> error + (string \<times> int list) list" where
  "get_labels_split class_to_label_dict' base_classes' novel_classes' =
     (case lookup_labels class_to_label_dict' base_classes' of Inl e \<Rightarrow> Inl e
      | Inr bl \<Rightarrow>
     (case lookup_labels class_to_label_dict' novel_classes' of Inl e \<Rightarrow> Inl e
      | Inr nl \<Rightarrow> Inr [(''base'', sort bl), (''novel'', sort nl)]))"

text \<open>
  \<^verbatim>\<open>GraphFewShotDataModule.__init__\<close>.  \<open>instantiate\<close> is the configuration library's function
  that makes the episode parameters from their configuration, and \<open>load_data\<close> is the
  loader of \<^verbatim>\<open>fs_grl.data.io_utils\<close>; both are outside the model.  The loader gives the store
  of the loaded graphs, the list of their references and the dictionary from class names
  to labels.  The classes split is obtained before anything is loaded.
\<close>

definition GraphFewShotDataModule_init ::
  "('c \<Rightarrow> error + EpisodeHParams) \<Rightarrow>
   (string \<Rightarrow> error + (string \<times> string list) list) \<Rightarrow>
   (string \<Rightarrow> string \<Rightarrow> 'f \<Rightarrow> error + (heap \<times> ref list \<times> (string \<times> int) list)) \<Rightarrow>
   string \<Rightarrow> 'f \<Rightarrow> string \<Rightarrow> string option \<Rightarrow> string option \<Rightarrow> bool \<Rightarrow> real \<Rightarrow>
   'c \<Rightarrow> int \<Rightarrow> int \<Rightarrow> error + (datamodule \<times> heap)" where
  "GraphFewShotDataModule_init instantiate read_json load_data dataset_name'
     data_features_to_consider data_dir' classes_split_path' query_support_split_path'
     separated_query_support' support_ratio' episode_hparams_cfg num_train_episodes'
     num_test_episodes' =
     (case instantiate episode_hparams_cfg of Inl e \<Rightarrow> Inl e
      | Inr episode_hparams' \<Rightarrow>
     (case get_classes_split read_json classes_split_path' of Inl e \<Rightarrow> Inl e
      | Inr classes_split' \<Rightarrow>
     (case map_of classes_split' ''base'' of None \<Rightarrow> Inl KeyError
      | Some base_classes' \<Rightarrow>
     (case map_of classes_split' ''novel'' of None \<Rightarrow> Inl KeyError
      | Some novel_classes' \<Rightarrow>
     (case load_data data_dir' dataset_name' data_features_to_consider of Inl e \<Rightarrow> Inl e
      | Inr (h, data_list', class_to_label_dict') \<Rightarrow>
     (case get_labels_split class_to_label_dict' base_classes' novel_classes' of Inl e \<Rightarrow> Inl e
      | Inr labels_split' \<Rightarrow>
     (case map_of labels_split' ''base'' of None \<Rightarrow> Inl KeyError
      | Some base_labels' \<Rightarrow>
     (case map_of labels_split' ''novel'' of None \<Rightarrow> Inl KeyError
      | Some novel_labels' \<Rightarrow>
        Inr (\<lparr>dataset_name = dataset_name', data_dir = data_dir',
              classes_split_path = classes_split_path',
              query_support_split_path = query_support_split_path',
              episode_hparams = episode_hparams',
              num_train_episodes = num_train_episodes',
              num_test_episodes = num_test_episodes',
              support_ratio = support_ratio',
              separated_query_support = separated_query_support',
              train_dataset = None, val_datasets = None, test_datasets = None,
              classes_split = classes_split',
              base_classes = base_classes', novel_classes = novel_classes',
              data_list = data_list', class_to_label_dict = class_to_label_dict',
              labels_split = labels_split',
              base_labels = base_labels', novel_labels = novel_labels',
              data_list_by_label =
                dict_of_items (groupby (\<lambda>r. y (h r)) data_list')\<rparr>, h)))))))))"


text \<open>\<^verbatim>\<open>split_base_novel_samples\<close>; the pair stands for the dictionary with the keys \<^verbatim>\<open>base\<close> and \<^verbatim>\<open>novel\<close>.\<close>

definition split_base_novel_samples :: "'m datamodule_scheme \<Rightarrow> ref list \<times> ref list" where
  "split_base_novel_samples self =
     (flatten (map snd (filter (\<lambda>(key, samples). key \<in> set (base_labels self))
                 (data_list_by_label self))),
      flatten (map snd (filter (\<lambda>(key, samples). key \<in> set (novel_labels self))
                 (data_list_by_label self))))"

subsection \<open>\<^verbatim>\<open>GraphMetaDataModule\<close>\<close>


subsection \<open>\<^verbatim>\<open>GraphTransferDataModule\<close>\<close>

text \<open>
  \<^verbatim>\<open>GraphTransferDataModule.__init__\<close>: the constructor of the base class, then the
  ratio of the split into training and validation samples.
\<close>

definition GraphTransferDataModule_init ::
  "('c \<Rightarrow> error + EpisodeHParams) \<Rightarrow>
   (string \<Rightarrow> error + (string \<times> string list) list) \<Rightarrow>
   (string \<Rightarrow> string \<Rightarrow> 'f \<Rightarrow> error + (heap \<times> ref list \<times> (string \<times> int) list)) \<Rightarrow>
   string \<Rightarrow> 'f \<Rightarrow> string \<Rightarrow> string option \<Rightarrow> string option \<Rightarrow> bool \<Rightarrow> real \<Rightarrow>
   'c \<Rightarrow> int \<Rightarrow> int \<Rightarrow> real \<Rightarrow> error + (transfer_datamodule \<times> heap)" where
  "GraphTransferDataModule_init instantiate read_json load_data dataset_name'
     data_features_to_consider data_dir' classes_split_path' query_support_split_path'
     separated_query_support' support_ratio' episode_hparams_cfg num_train_episodes'
     num_test_episodes' train_val_split_ratio' =
     (case GraphFewShotDataModule_init instantiate read_json load_data dataset_name'
             data_features_to_consider data_dir' classes_split_path' query_support_split_path'
             separated_query_support' support_ratio' episode_hparams_cfg num_train_episodes'
             num_test_episodes'
      of Inl e \<Rightarrow> Inl e
      | Inr (self, h) \<Rightarrow>
          Inr (datamodule.extend self \<lparr>train_val_split_ratio = train_val_split_ratio'\<rparr>, h))"

text \<open>\<^verbatim>\<open>{label: ind for ind, label in enumerate(sorted(stage_labels))}\<close>.\<close>

definition global_to_local :: "int list \<Rightarrow> (int \<times> nat) list" where
  "global_to_local stage_labels =
     dict_of_items (map (\<lambda>(ind, label). (label, ind)) (enumerate 0 (sort stage_labels)))"

text \<open>
  The loop of \<^verbatim>\<open>convert_to_local_labels\<close>: \<^verbatim>\<open>sample.y.apply_(\<dots>)\<close> overwrites the label of
  the object in place; a label without an entry in the dictionary raises.
\<close>

fun apply_labels :: "(int \<times> nat) list \<Rightarrow> heap \<Rightarrow> ref list \<Rightarrow> error + heap" where
  "apply_labels m h [] = Inr h"
| "apply_labels m h (sample # samples) =
     (case map_of m (y (h sample)) of None \<Rightarrow> Inl KeyError
      | Some l \<Rightarrow> apply_labels m (h(sample := (h sample)\<lparr>y := int l\<rparr>)) samples)"

definition convert_to_local_labels ::
  "'m datamodule_scheme \<Rightarrow> heap \<Rightarrow> ref list \<Rightarrow> string \<Rightarrow> error + ((int \<times> nat) list \<times> heap)" where
  "convert_to_local_labels self h samples base_or_novel =
     (case map_of (labels_split self) base_or_novel of None \<Rightarrow> Inl KeyError
      | Some stage_labels \<Rightarrow>
          (let global_to_local_labels = global_to_local stage_labels
           in case apply_labels global_to_local_labels h samples of Inl e \<Rightarrow> Inl e
              | Inr h' \<Rightarrow> Inr (global_to_local_labels, h')))"

definition split_train_val ::
  "(nat list \<Rightarrow> nat list) \<Rightarrow> transfer_datamodule \<Rightarrow> 'a list \<Rightarrow> error + ('a list \<times> 'a list)" where
  "split_train_val shuffle self data_list' =
     (let idxs = shuffle [0..<length data_list'];
          train_upperbound = \<lceil>train_val_split_ratio self * real (length data_list')\<rceil>;
          train_idxs = slice_upto idxs train_upperbound;
          val_idxs = slice_from idxs train_upperbound
      in case index_all data_list' train_idxs of Inl e \<Rightarrow> Inl e
         | Inr train_samples \<Rightarrow>
        (case index_all data_list' val_idxs of Inl e \<Rightarrow> Inl e
         | Inr val_samples \<Rightarrow> Inr (train_samples, val_samples)))"

text \<open>
  \<^verbatim>\<open>GraphTransferDataModule.setup\<close>: the state is the data module together with the
  object store.
\<close>

definition GraphTransferDataModule_setup ::
  "(dataset \<Rightarrow> error option) \<Rightarrow> (nat list \<Rightarrow> nat list) \<Rightarrow> transfer_datamodule \<Rightarrow> heap \<Rightarrow>
   string option \<Rightarrow> error + (transfer_datamodule \<times> heap)" where
  "GraphTransferDataModule_setup raises shuffle self h stage =
     (if stage = None \<or> stage = Some ''fit'' then
        (let (base_samples, novel_samples) = split_base_novel_samples self
         in case convert_to_local_labels self h base_samples ''base'' of Inl e \<Rightarrow> Inl e
            | Inr (base_global_to_local_labels, h1) \<Rightarrow>
           (case split_train_val shuffle self base_samples of Inl e \<Rightarrow> Inl e
            | Inr (base_train_samples, base_val_samples) \<Rightarrow>
           (case new_dataset raises (TransferSourceDataset base_train_samples) of Inl e \<Rightarrow> Inl e
            | Inr train \<Rightarrow>
           (case new_dataset raises (TransferSourceDataset base_val_samples) of Inl e \<Rightarrow> Inl e
            | Inr val \<Rightarrow>
           (case convert_to_local_labels self h1 novel_samples ''novel'' of Inl e \<Rightarrow> Inl e
            | Inr (novel_global_to_local_labels, h2) \<Rightarrow>
               (let local_novel_labels =
                      map (\<lambda>(ind, label). int ind) (enumerate 0 (sort (novel_labels self)))
                in case new_dataset raises (MapEpisodicDataset h2 novel_samples
                          (num_test_episodes self) local_novel_labels
                          (class_to_label_dict self) (episode_hparams self) False)
                   of Inl e \<Rightarrow> Inl e
                   | Inr test \<Rightarrow>
                       Inr (self\<lparr>train_dataset := Some train, val_datasets := Some [val],
                                 test_datasets := Some [test]\<rparr>, h2)))))))
      else Inr (self, h))"

subsection \<open>Notions used to state the properties of a batch\<close>

abbreviation hparams :: "nat \<Rightarrow> nat \<Rightarrow> nat \<Rightarrow> EpisodeHParams" where
  "hparams N K Q \<equiv>
     \<lparr>num_classes_per_episode = N, num_supports_per_class = K, num_queries_per_class = Q\<rparr>"

text \<open>
  The row of signs of one query against the labels of its episode, and the rows of an
  episode, one per query in the order of its query list.
\<close>

definition target_row :: "int list \<Rightarrow> graph \<Rightarrow> int list" where
  "target_row ls q = map (\<lambda>l. if y q = l then 1 else - 1) ls"

definition target_rows :: "episode \<Rightarrow> int list list" where
  "target_rows e = map (target_row (labels e)) (queries e)"

text \<open>The number of (query, label) pairs of a list of episodes.\<close>

definition num_pairs :: "episode list \<Rightarrow> nat" where
  "num_pairs eps = sum_list (map (\<lambda>e. length (queries e) * length (labels e)) eps)"

text \<open>The list of one-element tensors that \<^const>\<open>from_episode_list\<close> hands to \<^const>\<open>torch_cat\<close>.\<close>

definition pieces :: "episode list \<Rightarrow> int list list" where
  "pieces eps = concat (map (\<lambda>episode.
                    map (\<lambda>(query, label). cosine_target query label)
                      (List.product (queries episode) (labels episode))) eps)"

text \<open>The position of the first occurrence of a label in a label list.\<close>

definition index_of :: "int list \<Rightarrow> int \<Rightarrow> nat" where
  "index_of ls x = length (takeWhile (\<lambda>l. l \<noteq> x) ls)"


subsection \<open>Example episodes\<close>

text \<open>Two 2-way 1-shot 1-query episodes, the second with its labels in descending order.\<close>

definition example_episode_1 :: episode where
  "example_episode_1 =
     \<lparr>supports = [\<lparr>y = 3, num_nodes = 4\<rparr>, \<lparr>y = 5, num_nodes = 2\<rparr>],
      queries = [\<lparr>y = 3, num_nodes = 1\<rparr>, \<lparr>y = 5, num_nodes = 6\<rparr>],
      labels = [3, 5], episode_hparams = hparams 2 1 1\<rparr>"

definition example_episode_2 :: episode where
  "example_episode_2 =
     \<lparr>supports = [\<lparr>y = 7, num_nodes = 3\<rparr>, \<lparr>y = 8, num_nodes = 3\<rparr>],
      queries = [\<lparr>y = 7, num_nodes = 2\<rparr>, \<lparr>y = 8, num_nodes = 5\<rparr>],
      labels = [8, 7], episode_hparams = hparams 2 1 1\<rparr>"

definition example_episodes :: "episode list" where
  "example_episodes = [example_episode_1, example_episode_2]"

text \<open>A 1-way 1-shot 1-query episode that carries two supports instead of one.\<close>

definition long_supports_episode :: episode where
  "long_supports_episode =
     \<lparr>supports = [\<lparr>y = 0, num_nodes = 1\<rparr>, \<lparr>y = 0, num_nodes = 1\<rparr>],
      queries = [\<lparr>y = 0, num_nodes = 1\<rparr>],
      labels = [0], episode_hparams = hparams 1 1 1\<rparr>"

subsection \<open>Notions and examples for the data modules\<close>

text \<open>A metadata object as the data module builds it.\<close>

definition example_metadata :: MetaData where
  "example_metadata =
     MetaData_init [(''a'', 0), (''b'', 1)] 3 (hparams 2 1 1) [(''base'', [''a'']), (''novel'', [''b''])]"

text \<open>A file reader and a data loader that find nothing.\<close>

definition failing_reader :: "string \<Rightarrow> error + (string \<times> string list) list" where
  "failing_reader path = Inl ExternalError"

definition failing_loader ::
  "string \<Rightarrow> string \<Rightarrow> unit \<Rightarrow> error + (heap \<times> ref list \<times> (string \<times> int) list)" where
  "failing_loader dir name feats = Inl ExternalError"


text \<open>
  Six graphs, two of each of the labels 4, 9 and 6, and the data module that
  \<^const>\<open>GraphFewShotDataModule_init\<close> builds from them when the classes \<open>a\<close> and \<open>b\<close> are base
  classes and \<open>c\<close> is novel, with separated queries and supports and a support ratio of
  one half.
\<close>

definition example_heap :: heap where
  "example_heap r = \<lparr>y = (if r < 12 then 4 else if r < 14 then 9 else 6), num_nodes = 1\<rparr>"




text \<open>Dataset constructors that accept whatever they are given.\<close>

definition accept_all :: "dataset \<Rightarrow> error option" where
  "accept_all d = None"


text \<open>
  The store agrees with the grouping by label: every sample filed under a key carries
  that key as its label.
\<close>

definition grouped_by_label :: "heap \<Rightarrow> (int \<times> ref list) list \<Rightarrow> bool" where
  "grouped_by_label h groups = list_all (\<lambda>(key, samples). list_all (\<lambda>r. y (h r) = key) samples) groups"

text \<open>The same data as a transfer data module.\<close>

definition example_transfer_datamodule :: transfer_datamodule where
  "example_transfer_datamodule =
     \<lparr>dataset_name = ''D'', data_dir = ''dir'',
      classes_split_path = Some ''split.json'',
      query_support_split_path = None, episode_hparams = hparams 1 1 1,
      num_train_episodes = 10, num_test_episodes = 10,
      support_ratio = 1 / 2, separated_query_support = False,
      train_dataset = None, val_datasets = None, test_datasets = None,
      classes_split = [(''base'', [''b'', ''a'']), (''novel'', [''c''])],
      base_classes = [''b'', ''a''], novel_classes = [''c''],
      data_list = [10, 11, 12, 13, 14, 15],
      class_to_label_dict = [(''a'', 4), (''b'', 9), (''c'', 6)],
      labels_split = [(''base'', [4, 9]), (''novel'', [6])],
      base_labels = [4, 9], novel_labels = [6],
      data_list_by_label = [(4, [10, 11]), (9, [12, 13]), (6, [14, 15])],
      train_val_split_ratio = 4 / 5\<rparr>"

section \<open>Properties of episode batches\<close>

subsection \<open>Lists made of rows of one length\<close>

lemma length_concat_uniform:
  "\<forall>r\<in>set rs. length r = n \<Longrightarrow> length (concat rs) = length rs * n"
  by (induction rs) simp_all

lemma drop_concat_uniform:
  "\<forall>r\<in>set rs. length r = n \<Longrightarrow> drop (i * n) (concat rs) = concat (drop i rs)"
proof (induction rs arbitrary: i)
  case Nil
  then show ?case by simp
next
  case (Cons r rs)
  show ?case
  proof (cases i)
    case 0
    then show ?thesis by simp
  next
    case (Suc j)
    with Cons show ?thesis by simp
  qed
qed

lemma row_of_concat:
  assumes "\<forall>r\<in>set rs. length r = n" and "i < length rs"
  shows "take n (drop (i * n) (concat rs)) = rs ! i"
proof -
  from assms(2) obtain r rest where d: "drop i rs = r # rest" and r: "r = rs ! i"
    by (metis Cons_nth_drop_Suc)
  from assms have "length r = n" using r by simp
  with d show ?thesis
    by (simp add: drop_concat_uniform [OF assms(1)] r)
qed

lemma rows_of_concat:
  assumes "0 < n" and "\<forall>r\<in>set rs. length r = n"
  shows "rows_of n (concat rs) = rs"
proof (rule nth_equalityI)
  show len: "length (rows_of n (concat rs)) = length rs"
    using assms by (simp add: rows_of_def length_concat_uniform [OF assms(2)])
  fix i assume "i < length (rows_of n (concat rs))"
  with len have i: "i < length rs" by simp
  then have "i < length (concat rs) div n"
    using assms by (simp add: length_concat_uniform [OF assms(2)])
  then show "rows_of n (concat rs) ! i = rs ! i"
    using row_of_concat [OF assms(2) i] by (simp add: rows_of_def)
qed

lemma nth_concat_uniform:
  assumes "\<forall>r\<in>set rs. length r = n" and "i < length rs" and "j < n"
  shows "concat rs ! (i * n + j) = rs ! i ! j"
proof -
  have "i * n + j < length (concat rs)"
  proof -
    have "i * n + j < Suc i * n" using assms(3) by simp
    also have "\<dots> \<le> length rs * n" using assms(2) by (simp add: Suc_leI mult_le_mono1 del: mult_Suc)
    finally show ?thesis by (simp add: length_concat_uniform [OF assms(1)])
  qed
  then have "concat rs ! (i * n + j) = drop (i * n) (concat rs) ! j"
    by simp
  also have "\<dots> = take n (drop (i * n) (concat rs)) ! j"
    using assms(3) by simp
  also have "\<dots> = rs ! i ! j"
    by (simp add: row_of_concat [OF assms(1,2)])
  finally show ?thesis .
qed

lemma concat_concat_map: "concat (concat (map f xs)) = concat (map (\<lambda>x. concat (f x)) xs)"
  by (induction xs) simp_all

subsection \<open>The batch that \<^const>\<open>from_episode_list\<close> returns\<close>

lemma pieces_one_query:
  "concat (map ((\<lambda>(query, label). cosine_target query label) \<circ> Pair q) ls) = target_row ls q"
  by (induction ls) (simp_all add: cosine_target_def target_row_def)

lemma pieces_episode:
  "concat (map (\<lambda>(query, label). cosine_target query label) (List.product qs ls))
     = concat (map (target_row ls) qs)"
  by (induction qs) (simp_all add: pieces_one_query)

lemma concat_pieces: "concat (pieces eps) = concat (concat (map target_rows eps))"
  by (induction eps) (simp_all add: pieces_def pieces_episode target_rows_def)

lemma length_pieces: "length (pieces eps) = num_pairs eps"
  by (induction eps) (simp_all add: pieces_def num_pairs_def)

lemma length_concat_pieces: "length (concat (pieces eps)) = num_pairs eps"
  by (induction eps) (simp_all add: pieces_def num_pairs_def length_concat cosine_target_def
      comp_def case_prod_unfold sum_list_triv)

lemma pieces_empty_iff: "pieces eps = [] \<longleftrightarrow> num_pairs eps = 0"
  using length_pieces [of eps] by (metis length_0_conv)

lemma from_episode_list_unfold:
  "from_episode_list from_data_list len_batch eps hp =
     (case from_data_list (concat (map supports eps)) of None \<Rightarrow> Inl ExternalError
      | Some sb \<Rightarrow>
     (case from_data_list (concat (map queries eps)) of None \<Rightarrow> Inl ExternalError
      | Some qb \<Rightarrow>
        if num_pairs eps = 0 then Inl RuntimeError
        else if num_classes_per_episode hp = 0 \<or> num_pairs eps mod num_classes_per_episode hp \<noteq> 0
          then Inl RuntimeError
        else if num_supports_per_class hp * num_classes_per_episode hp = 0 then Inl ZeroDivisionError
        else Inr \<lparr>supports = sb, queries = qb,
                labels = torch_tensor (concat (map labels eps)),
                episode_hparams = hp,
                assignment_vectors =
                  [''support'' \<mapsto> torch_tensor (map (\<lambda>i. replicate
                       (num_supports_per_class hp * num_classes_per_episode hp) i) [0..<length eps]),
                   ''queries'' \<mapsto> torch_tensor (map (\<lambda>i. replicate
                       (num_queries_per_class hp * num_classes_per_episode hp) i) [0..<length eps])],
                supports_len = torch_tensor
                  (map (\<lambda>episode. sum_list (map num_nodes (supports episode))) eps),
                queries_len = torch_tensor
                  (map (\<lambda>episode. sum_list (map num_nodes (queries episode))) eps),
                num_episodes = length eps,
                cosine_targets = torch_tensor (concat (concat (map target_rows eps))),
                label_targets = torch_tensor (map argmax_row
                  (rows_of (num_classes_per_episode hp) (concat (concat (map target_rows eps))))),
                batch_size = real (len_batch sb) /
                  real (num_supports_per_class hp * num_classes_per_episode hp)\<rparr>))"
proof -
  have cat: "torch_cat (pieces eps) =
      (if num_pairs eps = 0 then Inl RuntimeError
       else Inr (torch_tensor (concat (concat (map target_rows eps)))))"
    by (simp add: torch_cat_def pieces_empty_iff concat_pieces)
  have len: "length (concat (concat (map target_rows eps))) = num_pairs eps"
    using length_concat_pieces [of eps] by (simp add: concat_pieces)
  show ?thesis
    unfolding from_episode_list_def Let_def pieces_def [symmetric] cat
    by (simp add: reshape_def argmax_def torch_tensor_def EpisodeBatch_init_def len
        split: option.split)
qed

lemma from_episode_list_InrD:
  assumes "from_episode_list from_data_list len_batch eps hp = Inr b"
  shows "0 < num_classes_per_episode hp"
    and "0 < num_supports_per_class hp"
    and "0 < num_pairs eps"
    and "num_pairs eps mod num_classes_per_episode hp = 0"
    and "from_data_list (concat (map supports eps)) \<noteq> None"
    and "from_data_list (concat (map queries eps)) \<noteq> None"
    and "cosine_targets b = torch_tensor (concat (concat (map target_rows eps)))"
    and "label_targets b = torch_tensor (map argmax_row
           (rows_of (num_classes_per_episode hp) (concat (concat (map target_rows eps)))))"
    and "supports_len b = torch_tensor
           (map (\<lambda>episode. sum_list (map num_nodes (supports episode))) eps)"
    and "queries_len b = torch_tensor
           (map (\<lambda>episode. sum_list (map num_nodes (queries episode))) eps)"
    and "assignment_vectors b =
           [''support'' \<mapsto> torch_tensor (map (\<lambda>i. replicate
                (num_supports_per_class hp * num_classes_per_episode hp) i) [0..<length eps]),
            ''queries'' \<mapsto> torch_tensor (map (\<lambda>i. replicate
                (num_queries_per_class hp * num_classes_per_episode hp) i) [0..<length eps])]"
    and "num_episodes b = length eps"
    and "Episode.episode_hparams b = hp"
    and "labels b = torch_tensor (concat (map labels eps))"
  using assms unfolding from_episode_list_unfold
  by (auto split: option.splits if_splits)

lemma from_episode_list_InrI:
  assumes "from_data_list (concat (map supports eps)) \<noteq> None"
    and "from_data_list (concat (map queries eps)) \<noteq> None"
    and "0 < num_classes_per_episode hp"
    and "0 < num_supports_per_class hp"
    and "0 < num_pairs eps"
    and "num_pairs eps mod num_classes_per_episode hp = 0"
  shows "\<exists>b. from_episode_list from_data_list len_batch eps hp = Inr b"
  using assms unfolding from_episode_list_unfold
  by (auto split: option.splits if_splits)

lemma num_pairs_wf:
  "\<forall>e\<in>set eps. length (queries e) = N * Q \<and> length (labels e) = N \<Longrightarrow>
   num_pairs eps = length eps * (N * Q * N)"
  by (induction eps) (simp_all add: num_pairs_def)

lemma from_episode_list_wf_Inr:
  assumes "from_data_list (concat (map supports eps)) \<noteq> None"
    and "from_data_list (concat (map queries eps)) \<noteq> None"
    and "eps \<noteq> []" and "0 < N" and "0 < K" and "0 < Q"
    and wf: "\<forall>e\<in>set eps. length (queries e) = N * Q \<and> length (labels e) = N"
  shows "\<exists>b. from_episode_list from_data_list len_batch eps (hparams N K Q) = Inr b"
proof (rule from_episode_list_InrI)
  have np: "num_pairs eps = length eps * (N * Q * N)"
    using wf by (rule num_pairs_wf)
  show "0 < num_pairs eps" using np assms(3-6) by simp
  show "num_pairs eps mod num_classes_per_episode (hparams N K Q) = 0" using np by simp
qed (use assms in simp_all)

lemma example_episodes_Inr:
  "\<exists>b. from_episode_list Some length example_episodes (hparams 2 1 1) = Inr b"
  by (rule from_episode_list_wf_Inr)
    (simp_all add: example_episodes_def example_episode_1_def example_episode_2_def)

subsection \<open>Cosine targets\<close>

lemma target_rows_uniform:
  "length (labels e) = N \<Longrightarrow> \<forall>r\<in>set (target_rows e). length r = N"
  by (simp add: target_rows_def target_row_def)

lemma all_target_rows_uniform:
  "\<forall>e\<in>set eps. length (labels e) = N \<Longrightarrow>
   \<forall>r\<in>set (concat (map target_rows eps)). length r = N"
  by (auto simp: target_rows_def target_row_def)

lemma length_episode_block:
  "length (concat (target_rows e)) = length (queries e) * length (labels e)"
  using length_concat_uniform [OF target_rows_uniform [OF refl], of e]
  by (simp add: target_rows_def)

text \<open>
  Claim C1.  For a non-empty list of episodes that each hold \<open>N * Q\<close> queries and \<open>N\<close>
  labels (with \<open>N\<close>, \<open>K\<close>, \<open>Q\<close> positive and the graph library accepting the two
  flattened graph lists), \<^const>\<open>from_episode_list\<close> returns a batch whose cosine targets
  have length \<open>B * N * Q * N\<close> and are ordered episode-major, then query-major, then
  class-minor: the entry of episode \<open>e\<close>, query \<open>q\<close> and candidate class \<open>c\<close> is \<open>1\<close> if the
  label of the query equals the \<open>c\<close>-th label of the episode and \<open>-1\<close> otherwise.
\<close>

theorem cosine_targets_layout:
  assumes sb: "from_data_list (concat (map supports eps)) \<noteq> None"
    and qb: "from_data_list (concat (map queries eps)) \<noteq> None"
    and ne: "eps \<noteq> []"
    and pos: "0 < N" "0 < K" "0 < Q"
    and wf: "\<forall>e\<in>set eps. length (queries e) = N * Q \<and> length (labels e) = N"
  shows "\<exists>b. from_episode_list from_data_list len_batch eps (hparams N K Q) = Inr b \<and>
           length (elems (cosine_targets b)) = length eps * N * Q * N \<and>
           (\<forall>e<length eps. \<forall>q<N * Q. \<forall>c<N.
              elems (cosine_targets b) ! (e * (N * Q * N) + (q * N + c)) =
                (if y (queries (eps ! e) ! q) = labels (eps ! e) ! c then 1 else - 1))"
proof -
  let ?flat = "concat (concat (map target_rows eps))"
  have np: "num_pairs eps = length eps * (N * Q * N)"
    using wf by (rule num_pairs_wf)
  with ne pos have np0: "num_pairs eps \<noteq> 0" by simp
  have md: "num_pairs eps mod N = 0" by (simp add: np)
  from sb qb obtain s q where
    s: "from_data_list (concat (map supports eps)) = Some s" and
    q: "from_data_list (concat (map queries eps)) = Some q" by auto
  obtain b where b: "from_episode_list from_data_list len_batch eps (hparams N K Q) = Inr b"
    and ct: "elems (cosine_targets b) = ?flat"
    using pos np0 md by (simp add: from_episode_list_unfold s q torch_tensor_def)
  have blocks: "\<forall>r\<in>set (map (\<lambda>e. concat (target_rows e)) eps). length r = N * Q * N"
    using wf by (auto simp: length_episode_block)
  have len: "length ?flat = length eps * N * Q * N"
    using length_concat_uniform [OF blocks] by (simp add: concat_concat_map mult.assoc)
  have nth: "?flat ! (e * (N * Q * N) + (k * N + c)) =
      (if y (queries (eps ! e) ! k) = labels (eps ! e) ! c then 1 else - 1)"
    if e: "e < length eps" and k: "k < N * Q" and c: "c < N" for e k c
  proof -
    have ee: "eps ! e \<in> set eps" using e by simp
    with wf have lq: "length (queries (eps ! e)) = N * Q" and ll: "length (labels (eps ! e)) = N"
      by auto
    have "k * N + c < Suc k * N" using c by simp
    also have "\<dots> \<le> (N * Q) * N" using k by (simp add: Suc_leI mult_le_mono1 del: mult_Suc)
    finally have inb: "k * N + c < N * Q * N" .
    have "?flat ! (e * (N * Q * N) + (k * N + c)) =
        map (\<lambda>e. concat (target_rows e)) eps ! e ! (k * N + c)"
      unfolding concat_concat_map
      using nth_concat_uniform [OF blocks _ inb, of e] e by simp
    also have "\<dots> = concat (target_rows (eps ! e)) ! (k * N + c)"
      using e by simp
    also have "\<dots> = target_rows (eps ! e) ! k ! c"
      using nth_concat_uniform [OF target_rows_uniform [OF ll] _ c, of k] k lq
      by (simp add: target_rows_def)
    also have "\<dots> = (if y (queries (eps ! e) ! k) = labels (eps ! e) ! c then 1 else - 1)"
      using k c lq ll by (simp add: target_rows_def target_row_def)
    finally show ?thesis .
  qed
  from b ct len nth show ?thesis by auto
qed

text \<open>
  The hypotheses of C1 hold of the two example episodes.
\<close>

theorem cosine_targets_layout_witness:
  "\<exists>b. from_episode_list Some length example_episodes (hparams 2 1 1) = Inr b \<and>
        length (elems (cosine_targets b)) = length example_episodes * 2 * 1 * 2 \<and>
        (\<forall>e<length example_episodes. \<forall>q<2 * 1. \<forall>c<2.
           elems (cosine_targets b) ! (e * (2 * 1 * 2) + (q * 2 + c)) =
             (if y (queries (example_episodes ! e) ! q) = labels (example_episodes ! e) ! c
              then 1 else - 1))"
  by (rule cosine_targets_layout)
    (simp_all add: example_episodes_def example_episode_1_def example_episode_2_def)

subsection \<open>Label targets\<close>

lemma count_target_row_zero:
  "y q \<notin> set ls \<Longrightarrow> count_list (target_row ls q) 1 = 0"
  by (induction ls) (auto simp: target_row_def)

lemma count_target_row_one:
  "distinct ls \<Longrightarrow> y q \<in> set ls \<Longrightarrow> count_list (target_row ls q) 1 = 1"
proof (induction ls)
  case Nil
  then show ?case by simp
next
  case (Cons l ls)
  show ?case
  proof (cases "y q = l")
    case True
    with Cons.prems have "y q \<notin> set ls" by simp
    from count_target_row_zero [OF this] True show ?thesis
      by (simp add: target_row_def)
  next
    case False
    with Cons show ?thesis by (simp add: target_row_def)
  qed
qed

lemma count_target_row_sum:
  "count_list (target_row ls q) 1 + count_list (target_row ls q) (- 1) = length ls"
  by (induction ls) (simp_all add: target_row_def)

lemma fold_max_Max: "fold max r (x::int) = Max (set (x # r))"
  by (simp only: Max.set_eq_fold)

lemma Max_target_row:
  assumes "y q \<in> set ls"
  shows "Max (set (target_row ls q)) = 1"
proof (rule Max_eqI)
  show "finite (set (target_row ls q))" by simp
  show "\<And>v. v \<in> set (target_row ls q) \<Longrightarrow> v \<le> 1" by (auto simp: target_row_def)
  show "1 \<in> set (target_row ls q)" using assms by (force simp: target_row_def)
qed

lemma argmax_target_row:
  assumes "y q \<in> set ls"
  shows "argmax_row (target_row ls q) = index_of ls (y q)"
proof -
  from assms obtain l ls' where ls: "ls = l # ls'" by (cases ls) auto
  then obtain x r where xr: "target_row ls q = x # r" by (simp add: target_row_def)
  have "fold max r x = 1"
    using Max_target_row [OF assms] by (simp only: fold_max_Max xr)
  then have "argmax_row (target_row ls q) = length (takeWhile (\<lambda>v. v \<noteq> 1) (target_row ls q))"
    by (simp add: argmax_row_def xr)
  also have "\<dots> = length (takeWhile (\<lambda>l. l \<noteq> y q) ls)"
  proof -
    have "(\<lambda>l. (if y q = l then 1 else - 1) \<noteq> (1::int)) = (\<lambda>l. l \<noteq> y q)"
      by auto
    then show ?thesis
      by (simp add: target_row_def takeWhile_map comp_def)
  qed
  finally show ?thesis by (simp add: index_of_def)
qed

text \<open>
  Claim C2.  When every episode has \<open>N\<close> distinct labels and the label of each of its
  queries is among them, the rows of the cosine targets reshaped to width \<open>N\<close> (one row
  per query of the batch) have the label targets as their row-wise argmax, and every row
  holds exactly one \<open>1\<close> and \<open>N - 1\<close> times \<open>-1\<close>.  The label target of a query is then the
  position of its label among the labels of its episode.
\<close>

theorem label_targets_argmax:
  assumes b: "from_episode_list from_data_list len_batch eps (hparams N K Q) = Inr b"
    and wf: "\<forall>e\<in>set eps. length (labels e) = N \<and> distinct (labels e) \<and>
               (\<forall>q\<in>set (queries e). y q \<in> set (labels e))"
  shows "map argmax_row (rows_of N (elems (cosine_targets b))) = elems (label_targets b) \<and>
         length (rows_of N (elems (cosine_targets b))) = sum_list (map (\<lambda>e. length (queries e)) eps) \<and>
         (\<forall>r\<in>set (rows_of N (elems (cosine_targets b))).
            length r = N \<and> count_list r 1 = 1 \<and> count_list r (- 1) = N - 1) \<and>
         elems (label_targets b) =
           concat (map (\<lambda>e. map (\<lambda>q. index_of (labels e) (y q)) (queries e)) eps)"
proof -
  let ?rows = "concat (map target_rows eps)"
  have N: "0 < N" using from_episode_list_InrD(1) [OF b] by simp
  have ct: "elems (cosine_targets b) = concat ?rows"
    using from_episode_list_InrD(7) [OF b] by (simp add: torch_tensor_def)
  have lt: "elems (label_targets b) = map argmax_row (rows_of N (concat ?rows))"
    using from_episode_list_InrD(8) [OF b] by (simp add: torch_tensor_def)
  have uni: "\<forall>r\<in>set ?rows. length r = N"
    using wf by (intro all_target_rows_uniform) simp
  have rows: "rows_of N (elems (cosine_targets b)) = ?rows"
    unfolding ct by (rule rows_of_concat [OF N uni])
  have one: "length r = N \<and> count_list r 1 = 1 \<and> count_list r (- 1) = N - 1"
    if "r \<in> set ?rows" for r
  proof -
    from that obtain e q where e: "e \<in> set eps" and q: "q \<in> set (queries e)"
      and r: "r = target_row (labels e) q"
      by (auto simp: target_rows_def)
    from wf e q have l: "length (labels e) = N" and d: "distinct (labels e)"
      and m: "y q \<in> set (labels e)" by auto
    have c1: "count_list r 1 = 1" unfolding r by (rule count_target_row_one [OF d m])
    with count_target_row_sum [of "labels e" q] l r have "count_list r (- 1) = N - 1"
      by simp
    with c1 l r show ?thesis by (simp add: target_row_def)
  qed
  have am: "map argmax_row (target_rows e) = map (\<lambda>q. index_of (labels e) (y q)) (queries e)"
    if "e \<in> set eps" for e
    using wf that by (simp add: target_rows_def argmax_target_row)
  have "map argmax_row ?rows = concat (map (\<lambda>e. map argmax_row (target_rows e)) eps)"
    by (simp add: map_concat comp_def)
  also have "\<dots> = concat (map (\<lambda>e. map (\<lambda>q. index_of (labels e) (y q)) (queries e)) eps)"
    using am by (metis (mono_tags, lifting) map_eq_conv)
  finally have idx: "elems (label_targets b) =
      concat (map (\<lambda>e. map (\<lambda>q. index_of (labels e) (y q)) (queries e)) eps)"
    using lt rows ct by simp
  have len: "length ?rows = sum_list (map (\<lambda>e. length (queries e)) eps)"
    by (simp add: length_concat comp_def target_rows_def)
  show ?thesis
    using lt ct rows one idx len by simp
qed

text \<open>
  The hypotheses of C2 hold of the batch of the two example episodes.
\<close>

theorem label_targets_argmax_witness:
  "\<exists>b. from_episode_list Some length example_episodes (hparams 2 1 1) = Inr b \<and>
     map argmax_row (rows_of 2 (elems (cosine_targets b))) = elems (label_targets b) \<and>
     length (rows_of 2 (elems (cosine_targets b))) =
       sum_list (map (\<lambda>e. length (queries e)) example_episodes) \<and>
     (\<forall>r\<in>set (rows_of 2 (elems (cosine_targets b))).
        length r = 2 \<and> count_list r 1 = 1 \<and> count_list r (- 1) = 2 - 1) \<and>
     elems (label_targets b) =
       concat (map (\<lambda>e. map (\<lambda>q. index_of (labels e) (y q)) (queries e)) example_episodes)"
proof -
  obtain b where b: "from_episode_list Some length example_episodes (hparams 2 1 1) = Inr b"
    using example_episodes_Inr by blast
  have "\<forall>e\<in>set example_episodes. length (labels e) = 2 \<and> distinct (labels e) \<and>
          (\<forall>q\<in>set (queries e). y q \<in> set (labels e))"
    by (simp add: example_episodes_def example_episode_1_def example_episode_2_def)
  from label_targets_argmax [OF b this] b show ?thesis by blast
qed

subsection \<open>Batches of single episodes\<close>

lemma collation_concat_nonempty:
  assumes fdl: "\<forall>gs. gs \<noteq> [] \<longrightarrow> from_data_list gs \<noteq> None"
    and ne: "eps \<noteq> []"
    and pos: "0 < N" "0 < K" "0 < Q"
    and wf: "\<forall>e\<in>set eps. length (supports e) = N * K \<and> length (queries e) = N * Q \<and>
               length (labels e) = N"
  shows "\<exists>b bs. from_episode_list from_data_list len_batch eps (hparams N K Q) = Inr b \<and>
           map (\<lambda>e. from_episode_list from_data_list len_batch [e] (hparams N K Q)) eps =
             map Inr bs \<and>
           elems (supports_len b) = concat (map (\<lambda>s. elems (supports_len s)) bs) \<and>
           elems (queries_len b) = concat (map (\<lambda>s. elems (queries_len s)) bs) \<and>
           elems (cosine_targets b) = concat (map (\<lambda>s. elems (cosine_targets s)) bs) \<and>
           elems (label_targets b) = concat (map (\<lambda>s. elems (label_targets s)) bs)"
proof -
  let ?hp = "hparams N K Q"
  let ?one = "\<lambda>e. from_episode_list from_data_list len_batch [e] ?hp"
  have nonempty: "concat (map supports es) \<noteq> [] \<and> concat (map queries es) \<noteq> []"
    if "es \<noteq> []" and "set es \<subseteq> set eps" for es
  proof -
    from that obtain e where e: "e \<in> set es" "e \<in> set eps" by (cases es) auto
    with wf pos have "supports e \<noteq> []" "queries e \<noteq> []" by auto
    with e(1) show ?thesis by auto
  qed
  have ok: "\<exists>b. from_episode_list from_data_list len_batch es ?hp = Inr b"
    if "es \<noteq> []" and "set es \<subseteq> set eps" for es
  proof (rule from_episode_list_InrI)
    from nonempty [OF that] fdl
    show "from_data_list (concat (map supports es)) \<noteq> None"
      and "from_data_list (concat (map queries es)) \<noteq> None" by auto
    have np: "num_pairs es = length es * (N * Q * N)"
      using wf that(2) by (intro num_pairs_wf) auto
    show "0 < num_pairs es" using np that(1) pos by simp
    show "num_pairs es mod num_classes_per_episode ?hp = 0" using np by simp
  qed (use pos in simp_all)
  from ok [OF ne] obtain b where b: "from_episode_list from_data_list len_batch eps ?hp = Inr b"
    by auto
  have "\<forall>e\<in>set eps. \<exists>s. ?one e = Inr s" using ok by simp
  then obtain f where f: "\<forall>e\<in>set eps. ?one e = Inr (f e)" by metis
  let ?bs = "map f eps"
  have singles: "map ?one eps = map Inr ?bs" using f by simp
  have uni: "\<forall>r\<in>set (concat (map target_rows eps)). length r = N"
    using wf by (intro all_target_rows_uniform) simp
  have s1: "elems (supports_len (f e)) = [sum_list (map num_nodes (supports e))]"
    and q1: "elems (queries_len (f e)) = [sum_list (map num_nodes (queries e))]"
    and c1: "elems (cosine_targets (f e)) = concat (target_rows e)"
    and l1: "elems (label_targets (f e)) = map argmax_row (target_rows e)"
    if e: "e \<in> set eps" for e
  proof -
    from f e have fe: "?one e = Inr (f e)" by simp
    show "elems (supports_len (f e)) = [sum_list (map num_nodes (supports e))]"
      using from_episode_list_InrD(9) [OF fe] by (simp add: torch_tensor_def)
    show "elems (queries_len (f e)) = [sum_list (map num_nodes (queries e))]"
      using from_episode_list_InrD(10) [OF fe] by (simp add: torch_tensor_def)
    show "elems (cosine_targets (f e)) = concat (target_rows e)"
      using from_episode_list_InrD(7) [OF fe] by (simp add: torch_tensor_def)
    have "\<forall>r\<in>set (target_rows e). length r = N"
      using wf e by (intro target_rows_uniform) simp
    from rows_of_concat [OF pos(1) this]
    show "elems (label_targets (f e)) = map argmax_row (target_rows e)"
      using from_episode_list_InrD(8) [OF fe] by (simp add: torch_tensor_def)
  qed
  have sl: "elems (supports_len b) = concat (map (\<lambda>s. elems (supports_len s)) ?bs)"
    using from_episode_list_InrD(9) [OF b] s1
    by (simp add: torch_tensor_def comp_def concat_map_singleton cong: map_cong)
  have ql: "elems (queries_len b) = concat (map (\<lambda>s. elems (queries_len s)) ?bs)"
    using from_episode_list_InrD(10) [OF b] q1
    by (simp add: torch_tensor_def comp_def concat_map_singleton cong: map_cong)
  have ct: "elems (cosine_targets b) = concat (map (\<lambda>s. elems (cosine_targets s)) ?bs)"
    using from_episode_list_InrD(7) [OF b] c1
    by (simp add: torch_tensor_def comp_def concat_concat_map cong: map_cong)
  have lt: "elems (label_targets b) = concat (map (\<lambda>s. elems (label_targets s)) ?bs)"
    using from_episode_list_InrD(8) [OF b] l1 rows_of_concat [OF pos(1) uni]
    by (simp add: torch_tensor_def comp_def map_concat cong: map_cong)
  from b singles sl ql ct lt show ?thesis by blast
qed

text \<open>
  Claim C3.  For a list of well-formed episodes (\<open>N * K\<close> supports, \<open>N * Q\<close> queries and
  \<open>N\<close> labels each) and a graph library that accepts non-empty lists: whenever the batch
  of the whole list exists, the single-episode batches of its members exist too, and the
  fields \<^const>\<open>supports_len\<close>, \<^const>\<open>queries_len\<close>, \<^const>\<open>cosine_targets\<close> and
  \<^const>\<open>label_targets\<close> of the former are the concatenation, in episode order, of those
  of the latter.  The batch of the whole list exists when the list is not empty and the
  three counts are positive.
\<close>

theorem collation_concat:
  assumes fdl: "\<forall>gs. gs \<noteq> [] \<longrightarrow> from_data_list gs \<noteq> None"
    and wf: "\<forall>e\<in>set eps. length (supports e) = N * K \<and> length (queries e) = N * Q \<and>
               length (labels e) = N"
  shows "(eps \<noteq> [] \<and> 0 < N \<and> 0 < K \<and> 0 < Q \<longrightarrow>
          (\<exists>b. from_episode_list from_data_list len_batch eps (hparams N K Q) = Inr b)) \<and>
         (\<forall>b. from_episode_list from_data_list len_batch eps (hparams N K Q) = Inr b \<longrightarrow>
          (\<exists>bs. map (\<lambda>e. from_episode_list from_data_list len_batch [e] (hparams N K Q)) eps =
                  map Inr bs \<and>
                elems (supports_len b) = concat (map (\<lambda>s. elems (supports_len s)) bs) \<and>
                elems (queries_len b) = concat (map (\<lambda>s. elems (queries_len s)) bs) \<and>
                elems (cosine_targets b) = concat (map (\<lambda>s. elems (cosine_targets s)) bs) \<and>
                elems (label_targets b) = concat (map (\<lambda>s. elems (label_targets s)) bs)))"
proof (intro conjI impI allI)
  assume "eps \<noteq> [] \<and> 0 < N \<and> 0 < K \<and> 0 < Q"
  with collation_concat_nonempty [OF fdl _ _ _ _ wf, of len_batch]
  show "\<exists>b. from_episode_list from_data_list len_batch eps (hparams N K Q) = Inr b"
    by blast
next
  fix b
  assume b: "from_episode_list from_data_list len_batch eps (hparams N K Q) = Inr b"
  have N: "0 < N" and K: "0 < K" and np: "0 < num_pairs eps"
    using from_episode_list_InrD(1-3) [OF b] by simp_all
  have "num_pairs eps = length eps * (N * Q * N)"
    using wf by (intro num_pairs_wf) simp
  with np have ne: "eps \<noteq> []" and Q: "0 < Q" by (auto intro: Nat.gr0I)
  from collation_concat_nonempty [OF fdl ne N K Q wf, of len_batch] b
  show "\<exists>bs. map (\<lambda>e. from_episode_list from_data_list len_batch [e] (hparams N K Q)) eps =
                  map Inr bs \<and>
                elems (supports_len b) = concat (map (\<lambda>s. elems (supports_len s)) bs) \<and>
                elems (queries_len b) = concat (map (\<lambda>s. elems (queries_len s)) bs) \<and>
                elems (cosine_targets b) = concat (map (\<lambda>s. elems (cosine_targets s)) bs) \<and>
                elems (label_targets b) = concat (map (\<lambda>s. elems (label_targets s)) bs)"
    by auto
qed

text \<open>
  The hypotheses of C3 hold of the two example episodes, and their batch exists.
\<close>

theorem collation_concat_witness:
  "\<exists>b bs. from_episode_list Some length example_episodes (hparams 2 1 1) = Inr b \<and>
           map (\<lambda>e. from_episode_list Some length [e] (hparams 2 1 1)) example_episodes =
             map Inr bs \<and>
           elems (supports_len b) = concat (map (\<lambda>s. elems (supports_len s)) bs) \<and>
           elems (queries_len b) = concat (map (\<lambda>s. elems (queries_len s)) bs) \<and>
           elems (cosine_targets b) = concat (map (\<lambda>s. elems (cosine_targets s)) bs) \<and>
           elems (label_targets b) = concat (map (\<lambda>s. elems (label_targets s)) bs)"
proof -
  have fdl: "\<forall>gs::graph list. gs \<noteq> [] \<longrightarrow> Some gs \<noteq> None" by simp
  have wf: "\<forall>e\<in>set example_episodes. length (supports e) = 2 * 1 \<and>
      length (queries e) = 2 * 1 \<and> length (labels e) = 2"
    by (simp add: example_episodes_def example_episode_1_def example_episode_2_def)
  have pos: "example_episodes \<noteq> [] \<and> (0::nat) < 2 \<and> (0::nat) < 1 \<and> (0::nat) < 1"
    by (simp add: example_episodes_def)
  from collation_concat [OF fdl wf, of length] pos show ?thesis by blast
qed

subsection \<open>Lists of episodes of other lengths\<close>

text \<open>
  Claim C5, amended.  \<^const>\<open>from_episode_list\<close> compares no list length with \<open>N * K\<close> or
  \<open>N * Q\<close> and never ends in \<open>ShapeMismatchError\<close>.  It returns a batch exactly when the
  graph library accepts the two flattened graph lists, \<open>N\<close> and \<open>K\<close> are positive, and
  the number of (query, label) pairs of the list is positive and a multiple of \<open>N\<close>.  In
  particular it returns a batch for every non-empty list of episodes of the exact
  lengths (with \<open>N\<close>, \<open>K\<close>, \<open>Q\<close> positive and a graph library that accepts non-empty
  lists).
\<close>

theorem from_episode_list_no_length_check:
  "((\<exists>b. from_episode_list from_data_list len_batch eps (hparams N K Q) = Inr b) \<longleftrightarrow>
      from_data_list (concat (map supports eps)) \<noteq> None \<and>
      from_data_list (concat (map queries eps)) \<noteq> None \<and>
      0 < N \<and> 0 < K \<and> 0 < num_pairs eps \<and> num_pairs eps mod N = 0) \<and>
   from_episode_list from_data_list len_batch eps (hparams N K Q) \<noteq> Inl ShapeMismatchError \<and>
   ((\<forall>gs. gs \<noteq> [] \<longrightarrow> from_data_list gs \<noteq> None) \<and> eps \<noteq> [] \<and> 0 < N \<and> 0 < K \<and> 0 < Q \<and>
    (\<forall>e\<in>set eps. length (supports e) = N * K \<and> length (queries e) = N * Q \<and>
       length (labels e) = N) \<longrightarrow>
    (\<exists>b. from_episode_list from_data_list len_batch eps (hparams N K Q) = Inr b))"
proof (intro conjI impI)
  show "(\<exists>b. from_episode_list from_data_list len_batch eps (hparams N K Q) = Inr b) \<longleftrightarrow>
      from_data_list (concat (map supports eps)) \<noteq> None \<and>
      from_data_list (concat (map queries eps)) \<noteq> None \<and>
      0 < N \<and> 0 < K \<and> 0 < num_pairs eps \<and> num_pairs eps mod N = 0"
    unfolding from_episode_list_unfold by (auto split: option.splits)
  show "from_episode_list from_data_list len_batch eps (hparams N K Q) \<noteq> Inl ShapeMismatchError"
    unfolding from_episode_list_unfold by (simp split: option.splits)
next
  assume a: "(\<forall>gs. gs \<noteq> [] \<longrightarrow> from_data_list gs \<noteq> None) \<and> eps \<noteq> [] \<and> 0 < N \<and> 0 < K \<and> 0 < Q \<and>
    (\<forall>e\<in>set eps. length (supports e) = N * K \<and> length (queries e) = N * Q \<and>
       length (labels e) = N)"
  then obtain e where e: "e \<in> set eps" by (cases eps) auto
  with a have "supports e \<noteq> []" "queries e \<noteq> []" by auto
  with e have "concat (map supports eps) \<noteq> []" "concat (map queries eps) \<noteq> []" by auto
  with a have "from_data_list (concat (map supports eps)) \<noteq> None"
    "from_data_list (concat (map queries eps)) \<noteq> None" by auto
  then show "\<exists>b. from_episode_list from_data_list len_batch eps (hparams N K Q) = Inr b"
    using a by (intro from_episode_list_wf_Inr) auto
qed

text \<open>
  The amended statement at the two example episodes, whose lengths are exact.
\<close>

theorem from_episode_list_no_length_check_witness:
  "((\<exists>b. from_episode_list Some length example_episodes (hparams 2 1 1) = Inr b) \<longleftrightarrow>
      Some (concat (map supports example_episodes)) \<noteq> None \<and>
      Some (concat (map queries example_episodes)) \<noteq> None \<and>
      (0::nat) < 2 \<and> (0::nat) < 1 \<and> 0 < num_pairs example_episodes \<and>
      num_pairs example_episodes mod 2 = 0) \<and>
   from_episode_list Some length example_episodes (hparams 2 1 1) \<noteq> Inl ShapeMismatchError \<and>
   (\<exists>b. from_episode_list Some length example_episodes (hparams 2 1 1) = Inr b)"
proof -
  have wf: "(\<forall>gs::graph list. gs \<noteq> [] \<longrightarrow> Some gs \<noteq> None) \<and> example_episodes \<noteq> [] \<and>
    (0::nat) < 2 \<and> (0::nat) < 1 \<and> (0::nat) < 1 \<and>
    (\<forall>e\<in>set example_episodes. length (supports e) = 2 * 1 \<and> length (queries e) = 2 * 1 \<and>
       length (labels e) = 2)"
    by (simp add: example_episodes_def example_episode_1_def example_episode_2_def)
  from from_episode_list_no_length_check [of Some length example_episodes 2 1 1] wf
  show ?thesis by blast
qed

text \<open>
  Claim C5 as stated fails: an episode with two supports where \<open>N * K = 1\<close> is collated
  without any error.
\<close>

theorem shape_mismatch_counterexample:
  "length (supports long_supports_episode) \<noteq> 1 * 1 \<and>
   \<not> isl (from_episode_list Some length [long_supports_episode] (hparams 1 1 1)) \<and>
   from_episode_list Some length [long_supports_episode] (hparams 1 1 1) \<noteq> Inl ShapeMismatchError"
proof -
  have "\<exists>b. from_episode_list Some length [long_supports_episode] (hparams 1 1 1) = Inr b"
    by (rule from_episode_list_wf_Inr) (simp_all add: long_supports_episode_def)
  then show ?thesis by (auto simp: long_supports_episode_def)
qed

subsection \<open>Assignment vectors\<close>




subsection \<open>Moving a batch to a device\<close>

text \<open>
  Claim C10.  \<^const>\<open>to\<close> moves the fields \<^const>\<open>supports\<close>, \<^const>\<open>queries\<close>,
  \<^const>\<open>cosine_targets\<close>, \<^const>\<open>label_targets\<close> and \<^const>\<open>labels\<close> to the device and leaves
  \<^const>\<open>assignment_vectors\<close>, \<^const>\<open>supports_len\<close>, \<^const>\<open>queries_len\<close>,
  \<^const>\<open>num_episodes\<close>, \<^const>\<open>batch_size\<close> and \<^const>\<open>Episode.episode_hparams\<close> as they
  were, on
  the device they were on.
\<close>

theorem to_frame:
  "assignment_vectors (to batch_to b d) = assignment_vectors b \<and>
   supports_len (to batch_to b d) = supports_len b \<and>
   queries_len (to batch_to b d) = queries_len b \<and>
   num_episodes (to batch_to b d) = num_episodes b \<and>
   batch_size (to batch_to b d) = batch_size b \<and>
   Episode.episode_hparams (to batch_to b d) = Episode.episode_hparams b \<and>
   supports (to batch_to b d) = batch_to (supports b) d \<and>
   queries (to batch_to b d) = batch_to (queries b) d \<and>
   cosine_targets (to batch_to b d) = \<lparr>elems = elems (cosine_targets b), device = d\<rparr> \<and>
   label_targets (to batch_to b d) = \<lparr>elems = elems (label_targets b), device = d\<rparr> \<and>
   labels (to batch_to b d) = \<lparr>elems = elems (labels b), device = d\<rparr>"
  by (simp add: to_def tensor_to_def)

section \<open>Properties of the metadata and the data modules\<close>

subsection \<open>Saving the metadata\<close>

text \<open>
  Claim C4.  The claim has \<^const>\<open>save\<close> succeed on every metadata object and the saved
  file load back to the same fields.  In the source \<^const>\<open>save\<close> calls the method
  \<^verbatim>\<open>as_dict\<close> of the episode parameters, which the dataclass does not have: every call
  ends in \<open>AttributeError\<close> before anything is written, for the example object as for
  any other.
\<close>

theorem save_raises_AttributeError:
  "save self dst_path fs = Inl AttributeError \<and>
   save example_metadata ''checkpoint'' Map.empty = Inl AttributeError"
  by (simp add: save_def getattr_def)

subsection \<open>A data module without a classes split\<close>

text \<open>
  Claim C6, amended.  Without a path to a classes split, \<^const>\<open>get_classes_split\<close> raises
  \<open>NotImplementedError\<close>, and so does the constructor of the data module once the episode
  parameters are instantiated, whatever the file reader, the data loader and the other
  arguments are: the error comes before the data is loaded and before any data module
  exists that could be set up or trained on.  No split is derived.
\<close>

theorem no_classes_split_raises:
  "get_classes_split read_json None = Inl NotImplementedError \<and>
   GraphFewShotDataModule_init instantiate read_json load_data dataset_name'
     data_features_to_consider data_dir' None query_support_split_path'
     separated_query_support' support_ratio' episode_hparams_cfg num_train_episodes'
     num_test_episodes' =
     (case instantiate episode_hparams_cfg of Inl e \<Rightarrow> Inl e
      | Inr episode_hparams' \<Rightarrow> Inl NotImplementedError)"
  by (simp add: get_classes_split_def GraphFewShotDataModule_init_def split: sum.split)

text \<open>
  Claim C6 as stated fails in the name of the error: what is raised is not
  \<open>ConfigurationError\<close>.
\<close>

theorem no_classes_split_counterexample:
  "get_classes_split failing_reader None \<noteq> Inl ConfigurationError \<and>
   GraphFewShotDataModule_init Inr failing_reader failing_loader ''D'' () ''dir'' None None False
     (1 / 2) (hparams 1 1 1) 10 10 = Inl NotImplementedError \<and>
   GraphFewShotDataModule_init Inr failing_reader failing_loader ''D'' () ''dir'' None None False
     (1 / 2) (hparams 1 1 1) 10 10 \<noteq> Inl ConfigurationError"
  by (simp add: get_classes_split_def GraphFewShotDataModule_init_def)

subsection \<open>Splitting by a shuffled index list\<close>

lemma slice_append: "slice_upto xs u @ slice_from xs u = xs"
  by (simp add: slice_upto_def slice_from_def)

lemma length_slice_upto:
  "0 \<le> u \<Longrightarrow> length (slice_upto xs u) = min (length xs) (nat u)"
  by (simp add: slice_upto_def)

lemma index_all_Inr:
  "set idxs \<subseteq> {0..<length xs} \<Longrightarrow> index_all xs idxs = Inr (map (nth xs) idxs)"
  by (auto simp: index_all_def list_all_iff)

lemma map_nth_perm:
  assumes "mset idxs = mset [0..<length xs]"
  shows "mset (map (nth xs) idxs) = mset xs"
proof -
  have "mset (map (nth xs) idxs) = image_mset (nth xs) (mset idxs)" by simp
  also have "\<dots> = mset (map (nth xs) [0..<length xs])" by (simp add: assms)
  finally show ?thesis by (simp add: map_nth)
qed

lemma split_by_permutation:
  assumes perm: "mset idxs = mset [0..<length xs]"
  shows "\<exists>S Q. index_all xs (slice_upto idxs u) = Inr S \<and> index_all xs (slice_from idxs u) = Inr Q \<and>
           S = map (nth xs) (slice_upto idxs u) \<and> Q = map (nth xs) (slice_from idxs u) \<and>
           mset (S @ Q) = mset xs \<and> (0 \<le> u \<longrightarrow> length S = min (length xs) (nat u))"
proof -
  have set_idxs: "set idxs = {0..<length xs}"
    using mset_eq_setD [OF perm] by simp
  have len: "length idxs = length xs"
    using mset_eq_length [OF perm] by simp
  have "set (slice_upto idxs u) \<subseteq> set idxs" "set (slice_from idxs u) \<subseteq> set idxs"
    by (auto simp: slice_upto_def slice_from_def dest: in_set_takeD in_set_dropD)
  then have sub: "set (slice_upto idxs u) \<subseteq> {0..<length xs}" "set (slice_from idxs u) \<subseteq> {0..<length xs}"
    using set_idxs by auto
  have "map (nth xs) (slice_upto idxs u) @ map (nth xs) (slice_from idxs u) = map (nth xs) idxs"
    by (simp add: slice_append flip: map_append)
  then have "mset (map (nth xs) (slice_upto idxs u) @ map (nth xs) (slice_from idxs u)) = mset xs"
    using map_nth_perm [OF perm] by simp
  then show ?thesis
    using index_all_Inr [OF sub(1)] index_all_Inr [OF sub(2)] length_slice_upto [of u idxs] len
    by simp
qed

subsection \<open>Separated queries and supports\<close>






subsection \<open>What the constructors establish\<close>

lemma groupby_keys:
  "(k, rs) \<in> set (groupby f xs) \<Longrightarrow> r \<in> set rs \<Longrightarrow> f r = k"
proof (induction f xs rule: groupby.induct)
  case (1 f)
  then show ?case by simp
next
  case (2 f x xs)
  then show ?case by (auto dest: set_takeWhileD)
qed

lemma concat_groupby: "concat (map snd (groupby f xs)) = xs"
  by (induction f xs rule: groupby.induct) simp_all

lemma mset_update: "mset (AList.update k v d) \<subseteq># add_mset (k, v) (mset d)"
  by (induction d) (auto simp: subset_mset.add_mono)

lemma mset_foldl_update:
  "mset (foldl (\<lambda>d (k, v). AList.update k v d) d kvs) \<subseteq># mset d + mset kvs"
proof (induction kvs arbitrary: d)
  case Nil
  then show ?case by simp
next
  case (Cons kv kvs)
  obtain k v where kv: "kv = (k, v)" by (cases kv)
  have "mset (foldl (\<lambda>d (k, v). AList.update k v d) (AList.update k v d) kvs)
      \<subseteq># mset (AList.update k v d) + mset kvs"
    by (rule Cons.IH)
  also have "\<dots> \<subseteq># add_mset (k, v) (mset d) + mset kvs"
    using mset_update [of k v d] by (simp add: subset_mset.add_mono)
  finally show ?case by (simp add: kv)
qed

lemma mset_dict_of_items: "mset (dict_of_items kvs) \<subseteq># mset kvs"
  using mset_foldl_update [of "[]" kvs] by (simp add: dict_of_items_def)

lemma mset_concat_snd:
  "mset (concat (map snd xs)) = \<Sum>\<^sub># (image_mset (\<lambda>p. mset (snd p)) (mset xs))"
  by (induction xs) simp_all

lemma mset_concat_mono:
  assumes "mset ys \<subseteq># mset xs"
  shows "mset (concat (map snd ys)) \<subseteq># mset (concat (map snd xs))"
proof -
  from assms obtain C where "mset xs = mset ys + C"
    by (auto simp: mset_subset_eq_exists_conv)
  then show ?thesis by (simp add: mset_concat_snd)
qed

lemma distinct_submset:
  assumes "mset ys \<subseteq># mset xs" and "distinct xs"
  shows "distinct ys"
proof -
  have le: "count (mset ys) a \<le> 1" for a
  proof -
    have "count (mset ys) a \<le> count (mset xs) a"
      using assms(1) by (rule mset_subset_eq_count)
    also have "\<dots> \<le> 1"
      using assms(2) by (simp add: distinct_count_atmost_1)
    finally show ?thesis .
  qed
  show ?thesis
    unfolding distinct_count_atmost_1
  proof (intro allI)
    fix a
    show "count (mset ys) a = (if a \<in> set ys then 1 else 0)"
    proof (cases "a \<in> set ys")
      case True
      then have "0 < count (mset ys) a" by simp
      with le [of a] have "count (mset ys) a = 1" by linarith
      with True show ?thesis by (simp only: if_True)
    next
      case False
      then show ?thesis by (simp add: count_mset_0_iff)
    qed
  qed
qed

lemma distinct_dict_of_items:
  "distinct (concat (map snd kvs)) \<Longrightarrow> distinct (concat (map snd (dict_of_items kvs)))"
  using distinct_submset [OF mset_concat_mono [OF mset_dict_of_items]] .

lemma set_dict_of_items: "set (dict_of_items kvs) \<subseteq> set kvs"
  using set_mset_mono [OF mset_dict_of_items [of kvs]] by simp

lemma init_invariants:
  assumes init: "GraphFewShotDataModule_init instantiate read_json load_data dataset_name'
      data_features_to_consider data_dir' classes_split_path' query_support_split_path'
      separated_query_support' support_ratio' episode_hparams_cfg num_train_episodes'
      num_test_episodes' = Inr (dm, h)"
  shows "labels_split dm = [(''base'', base_labels dm), (''novel'', novel_labels dm)]"
    and "grouped_by_label h (data_list_by_label dm)"
    and "distinct (data_list dm) \<Longrightarrow> distinct (concat (map snd (data_list_by_label dm)))"
proof -
  from init obtain ls where
    ls: "labels_split dm = ls" "map_of ls ''base'' = Some (base_labels dm)"
      "map_of ls ''novel'' = Some (novel_labels dm)"
      "\<exists>bl nl. ls = [(''base'', bl), (''novel'', nl)]"
    and by_label: "data_list_by_label dm = dict_of_items (groupby (\<lambda>r. y (h r)) (data_list dm))"
    by (auto simp: GraphFewShotDataModule_init_def get_labels_split_def
        split: sum.splits option.splits prod.splits)
  from ls show "labels_split dm = [(''base'', base_labels dm), (''novel'', novel_labels dm)]"
    by auto
  show "grouped_by_label h (data_list_by_label dm)"
    unfolding grouped_by_label_def by_label list_all_iff
    using set_dict_of_items groupby_keys by fastforce
  show "distinct (concat (map snd (data_list_by_label dm)))" if "distinct (data_list dm)"
    unfolding by_label using that by (intro distinct_dict_of_items) (simp add: concat_groupby)
qed

lemma transfer_init_invariants:
  assumes init: "GraphTransferDataModule_init instantiate read_json load_data dataset_name'
      data_features_to_consider data_dir' classes_split_path' query_support_split_path'
      separated_query_support' support_ratio' episode_hparams_cfg num_train_episodes'
      num_test_episodes' train_val_split_ratio' = Inr (dm, h)"
  shows "labels_split dm = [(''base'', base_labels dm), (''novel'', novel_labels dm)]"
    and "grouped_by_label h (data_list_by_label dm)"
    and "distinct (data_list dm) \<Longrightarrow> distinct (concat (map snd (data_list_by_label dm)))"
proof -
  from init obtain dm0 where
    init0: "GraphFewShotDataModule_init instantiate read_json load_data dataset_name'
      data_features_to_consider data_dir' classes_split_path' query_support_split_path'
      separated_query_support' support_ratio' episode_hparams_cfg num_train_episodes'
      num_test_episodes' = Inr (dm0, h)"
    and dm: "dm = datamodule.extend dm0 \<lparr>train_val_split_ratio = train_val_split_ratio'\<rparr>"
    by (auto simp: GraphTransferDataModule_init_def split: sum.splits prod.splits)
  have same: "labels_split dm = labels_split dm0" "base_labels dm = base_labels dm0"
    "novel_labels dm = novel_labels dm0" "data_list_by_label dm = data_list_by_label dm0"
    "data_list dm = data_list dm0"
    by (simp_all add: dm datamodule.defs)
  show "labels_split dm = [(''base'', base_labels dm), (''novel'', novel_labels dm)]"
    and "grouped_by_label h (data_list_by_label dm)"
    and "distinct (data_list dm) \<Longrightarrow> distinct (concat (map snd (data_list_by_label dm)))"
    using init_invariants [OF init0] by (simp_all add: same)
qed

subsection \<open>Local labels\<close>

lemma update_fresh: "k \<notin> fst ` set d \<Longrightarrow> AList.update k v d = d @ [(k, v)]"
  by (induction d) auto

lemma foldl_update_distinct:
  "distinct (map fst (d @ kvs)) \<Longrightarrow> foldl (\<lambda>d (k, v). AList.update k v d) d kvs = d @ kvs"
proof (induction kvs arbitrary: d)
  case Nil
  then show ?case by simp
next
  case (Cons kv kvs)
  obtain k v where kv: "kv = (k, v)" by (cases kv)
  from Cons.prems have fresh: "k \<notin> fst ` set d" by (auto simp: kv)
  from Cons.prems have "distinct (map fst ((d @ [(k, v)]) @ kvs))" by (simp add: kv)
  from Cons.IH [OF this] show ?case by (simp add: kv update_fresh [OF fresh])
qed

lemma dict_of_items_distinct: "distinct (map fst kvs) \<Longrightarrow> dict_of_items kvs = kvs"
  using foldl_update_distinct [of "[]" kvs] by (simp add: dict_of_items_def)

lemma enumerate_swap:
  "map (\<lambda>(ind, label). (label, ind)) (enumerate 0 xs) = zip xs [0..<length xs]"
  by (simp add: enumerate_eq_zip zip_commute [of xs])

lemma global_to_local_distinct:
  assumes "distinct stage_labels"
  shows "global_to_local stage_labels = zip (sort stage_labels) [0..<length stage_labels]"
proof -
  have "map fst (zip (sort stage_labels) [0..<length (sort stage_labels)]) = sort stage_labels"
    by (simp add: map_fst_zip)
  then have "distinct (map fst (zip (sort stage_labels) [0..<length (sort stage_labels)]))"
    using assms by simp
  from dict_of_items_distinct [OF this] show ?thesis
    by (simp add: global_to_local_def enumerate_swap)
qed

lemma apply_labels_distinct:
  assumes "distinct samples"
    and "\<forall>s\<in>set samples. \<exists>l. map_of m (y (h s)) = Some l"
  shows "apply_labels m h samples =
    Inr (\<lambda>r. if r \<in> set samples then (h r)\<lparr>y := int (the (map_of m (y (h r))))\<rparr> else h r)"
  using assms
proof (induction samples arbitrary: h)
  case Nil
  then show ?case by simp
next
  case (Cons s samples)
  from Cons.prems obtain l where l: "map_of m (y (h s)) = Some l" by auto
  let ?h = "h(s := (h s)\<lparr>y := int l\<rparr>)"
  from Cons.prems have fresh: "s \<notin> set samples" and d: "distinct samples" by auto
  have same: "?h r = h r" if "r \<in> set samples" for r
    using that fresh by auto
  have "\<forall>r\<in>set samples. \<exists>l. map_of m (y (?h r)) = Some l"
    using Cons.prems(2) same by auto
  from Cons.IH [OF d this]
  have "apply_labels m ?h samples =
    Inr (\<lambda>r. if r \<in> set samples then (?h r)\<lparr>y := int (the (map_of m (y (?h r))))\<rparr> else ?h r)" .
  also have "(\<lambda>r. if r \<in> set samples then (?h r)\<lparr>y := int (the (map_of m (y (?h r))))\<rparr> else ?h r) =
    (\<lambda>r. if r \<in> set (s # samples) then (h r)\<lparr>y := int (the (map_of m (y (h r))))\<rparr> else h r)"
    using fresh l by (auto simp: fun_eq_iff)
  finally have "apply_labels m ?h samples =
    Inr (\<lambda>r. if r \<in> set (s # samples) then (h r)\<lparr>y := int (the (map_of m (y (h r))))\<rparr> else h r)" .
  then show ?case by (simp only: apply_labels.simps l option.case)
qed

lemma map_of_sorted_index:
  assumes "distinct ls" and "x \<in> set ls"
  shows "\<exists>i<length ls. x = sort ls ! i \<and> map_of (zip (sort ls) [0..<length ls]) x = Some i"
proof -
  from assms(2) have "x \<in> set (sort ls)" by simp
  then obtain i where i: "i < length (sort ls)" "sort ls ! i = x"
    unfolding in_set_conv_nth by blast
  have "map_of (zip (sort ls) [0..<length ls]) (sort ls ! i) = Some ([0..<length ls] ! i)"
    by (rule map_of_zip_nth) (use assms(1) i in simp_all)
  with i show ?thesis by auto
qed

lemma convert_to_local_labels_ok:
  assumes stage: "map_of (labels_split self) stage = Some stage_labels"
    and dl: "distinct stage_labels"
    and ds: "distinct samples"
    and scope: "\<forall>s\<in>set samples. y (h s) \<in> set stage_labels"
  shows "\<exists>h'. convert_to_local_labels self h samples stage =
             Inr (zip (sort stage_labels) [0..<length stage_labels], h') \<and>
           (\<forall>s\<in>set samples. \<exists>i<length stage_labels.
              y (h s) = sort stage_labels ! i \<and> h' s = (h s)\<lparr>y := int i\<rparr>) \<and>
           (\<forall>r. r \<notin> set samples \<longrightarrow> h' r = h r)"
proof -
  let ?m = "zip (sort stage_labels) [0..<length stage_labels]"
  let ?h' = "\<lambda>r. if r \<in> set samples then (h r)\<lparr>y := int (the (map_of ?m (y (h r))))\<rparr> else h r"
  have idx: "\<exists>i<length stage_labels. y (h s) = sort stage_labels ! i \<and> map_of ?m (y (h s)) = Some i"
    if "s \<in> set samples" for s
    using map_of_sorted_index [OF dl] scope that by blast
  then have "\<forall>s\<in>set samples. \<exists>l. map_of ?m (y (h s)) = Some l" by blast
  from apply_labels_distinct [OF ds this]
  have "convert_to_local_labels self h samples stage = Inr (?m, ?h')"
    by (simp add: convert_to_local_labels_def stage global_to_local_distinct [OF dl] Let_def)
  moreover have "\<exists>i<length stage_labels. y (h s) = sort stage_labels ! i \<and> ?h' s = (h s)\<lparr>y := int i\<rparr>"
    if "s \<in> set samples" for s
    using idx [OF that] that by auto
  ultimately show ?thesis by (intro exI [of _ ?h']) simp
qed

lemma distinct_concat_filter:
  "distinct (concat (map snd groups)) \<Longrightarrow> distinct (concat (map snd (filter P groups)))"
  by (induction groups) auto

lemma grouped_label_mem:
  assumes "grouped_by_label h groups"
    and "r \<in> set (concat (map snd (filter (\<lambda>(key, samples). key \<in> L) groups)))"
  shows "y (h r) \<in> L"
  using assms by (auto simp: grouped_by_label_def list_all_iff)

lemma split_train_val_ok:
  assumes "\<forall>xs. mset (shuffle xs) = mset xs"
  shows "\<exists>tr va. split_train_val shuffle self xs = Inr (tr, va)"
proof -
  have "mset (shuffle [0..<length xs]) = mset [0..<length xs]" using assms by simp
  from split_by_permutation [OF this, of "\<lceil>train_val_split_ratio self * real (length xs)\<rceil>"]
  obtain S Q where
    "index_all xs (slice_upto (shuffle [0..<length xs])
       \<lceil>train_val_split_ratio self * real (length xs)\<rceil>) = Inr S"
    "index_all xs (slice_from (shuffle [0..<length xs])
       \<lceil>train_val_split_ratio self * real (length xs)\<rceil>) = Inr Q"
    by blast
  then show ?thesis by (simp add: split_train_val_def Let_def)
qed

lemma transfer_setup_ok:
  assumes ls: "labels_split self = [(''base'', base_labels self), (''novel'', novel_labels self)]"
    and db: "distinct (base_labels self)" and dn: "distinct (novel_labels self)"
    and disj: "set (base_labels self) \<inter> set (novel_labels self) = {}"
    and dobj: "distinct (concat (map snd (data_list_by_label self)))"
    and grp: "grouped_by_label h (data_list_by_label self)"
    and perm: "\<forall>xs. mset (shuffle xs) = mset xs"
    and bn: "split_base_novel_samples self = (base, novel)"
    and stage: "stage = None \<or> stage = Some ''fit''"
    and accepts: "\<forall>d. raises d = None"
  shows "\<exists>self' h'. GraphTransferDataModule_setup raises shuffle self h stage = Inr (self', h') \<and>
      test_datasets self' = Some [MapEpisodicDataset h' novel (num_test_episodes self)
        (map int [0..<length (novel_labels self)]) (class_to_label_dict self)
        (datamodule.episode_hparams self) False] \<and>
      (\<forall>s\<in>set base. \<exists>i<length (base_labels self).
         y (h s) = sort (base_labels self) ! i \<and> h' s = (h s)\<lparr>y := int i\<rparr>) \<and>
      (\<forall>s\<in>set novel. \<exists>i<length (novel_labels self).
         y (h s) = sort (novel_labels self) ! i \<and> h' s = (h s)\<lparr>y := int i\<rparr>) \<and>
      (\<forall>r. r \<notin> set base \<union> set novel \<longrightarrow> h' r = h r)"
proof -
  from bn have base: "base = concat (map snd (filter (\<lambda>(key, samples). key \<in> set (base_labels self))
      (data_list_by_label self)))"
    and novel: "novel = concat (map snd (filter (\<lambda>(key, samples). key \<in> set (novel_labels self))
      (data_list_by_label self)))"
    by (simp_all add: split_base_novel_samples_def flatten_def)
  have dbase: "distinct base" and dnovel: "distinct novel"
    unfolding base novel using dobj by (intro distinct_concat_filter; simp)+
  have sb: "\<forall>s\<in>set base. y (h s) \<in> set (base_labels self)"
    unfolding base using grouped_label_mem [OF grp] by blast
  have sn: "\<forall>s\<in>set novel. y (h s) \<in> set (novel_labels self)"
    unfolding novel using grouped_label_mem [OF grp] by blast
  have apart: "set base \<inter> set novel = {}" using sb sn disj by blast
  have stb: "map_of (labels_split self) ''base'' = Some (base_labels self)"
    and stn: "map_of (labels_split self) ''novel'' = Some (novel_labels self)"
    by (simp_all add: ls)
  from convert_to_local_labels_ok [OF stb db dbase sb] obtain h1 where
    c1: "convert_to_local_labels self h base ''base'' =
           Inr (zip (sort (base_labels self)) [0..<length (base_labels self)], h1)" and
    b1: "\<forall>s\<in>set base. \<exists>i<length (base_labels self).
           y (h s) = sort (base_labels self) ! i \<and> h1 s = (h s)\<lparr>y := int i\<rparr>" and
    f1: "\<forall>r. r \<notin> set base \<longrightarrow> h1 r = h r"
    by blast
  have sn1: "\<forall>s\<in>set novel. y (h1 s) \<in> set (novel_labels self)"
    using sn f1 apart by auto
  from convert_to_local_labels_ok [OF stn dn dnovel sn1] obtain h2 where
    c2: "convert_to_local_labels self h1 novel ''novel'' =
           Inr (zip (sort (novel_labels self)) [0..<length (novel_labels self)], h2)" and
    b2: "\<forall>s\<in>set novel. \<exists>i<length (novel_labels self).
           y (h1 s) = sort (novel_labels self) ! i \<and> h2 s = (h1 s)\<lparr>y := int i\<rparr>" and
    f2: "\<forall>r. r \<notin> set novel \<longrightarrow> h2 r = h1 r"
    by blast
  from split_train_val_ok [OF perm] obtain tr va where
    tv: "split_train_val shuffle self base = Inr (tr, va)" by blast
  have loc: "map (\<lambda>(ind, label). int ind) (enumerate 0 (sort (novel_labels self))) =
      map int [0..<length (novel_labels self)]"
  proof -
    have "map fst (zip [0..<length (novel_labels self)] (sort (novel_labels self))) =
        [0..<length (novel_labels self)]"
      by (simp add: map_fst_zip)
    then have "map (int \<circ> fst) (zip [0..<length (novel_labels self)] (sort (novel_labels self))) =
        map int [0..<length (novel_labels self)]"
      by (simp only: flip: map_map)
    then show ?thesis
      by (simp add: enumerate_eq_zip case_prod_unfold comp_def)
  qed
  let ?self' = "self\<lparr>train_dataset := Some (TransferSourceDataset tr),
      val_datasets := Some [TransferSourceDataset va],
      test_datasets := Some [MapEpisodicDataset h2 novel (num_test_episodes self)
        (map int [0..<length (novel_labels self)]) (class_to_label_dict self)
        (datamodule.episode_hparams self) False]\<rparr>"
  have run: "GraphTransferDataModule_setup raises shuffle self h stage = Inr (?self', h2)"
    using stage accepts
    by (auto simp: GraphTransferDataModule_setup_def new_dataset_def bn c1 c2 tv loc)
  have r1: "\<forall>s\<in>set base. \<exists>i<length (base_labels self).
         y (h s) = sort (base_labels self) ! i \<and> h2 s = (h s)\<lparr>y := int i\<rparr>"
    using b1 f2 apart by (metis disjoint_iff)
  have r2: "\<forall>s\<in>set novel. \<exists>i<length (novel_labels self).
         y (h s) = sort (novel_labels self) ! i \<and> h2 s = (h s)\<lparr>y := int i\<rparr>"
    using b2 f1 apart by (metis disjoint_iff)
  have r3: "\<forall>r. r \<notin> set base \<union> set novel \<longrightarrow> h2 r = h r"
    using f1 f2 by simp
  from run r1 r2 r3 show ?thesis
    by (intro exI [of _ ?self'] exI [of _ h2]) simp
qed

lemma transfer_init_then_setup:
  assumes init: "GraphTransferDataModule_init instantiate read_json load_data dataset_name'
      data_features_to_consider data_dir' classes_split_path' query_support_split_path'
      separated_query_support' support_ratio' episode_hparams_cfg num_train_episodes'
      num_test_episodes' train_val_split_ratio' = Inr (self, h)"
    and objs: "distinct (data_list self)"
    and db: "distinct (base_labels self)" and dn: "distinct (novel_labels self)"
    and disj: "set (base_labels self) \<inter> set (novel_labels self) = {}"
    and perm: "\<forall>xs. mset (shuffle xs) = mset xs"
    and bn: "split_base_novel_samples self = (base, novel)"
    and stage: "stage = None \<or> stage = Some ''fit''"
    and accepts: "\<forall>d. raises d = None"
  shows "\<exists>self' h'. GraphTransferDataModule_setup raises shuffle self h stage = Inr (self', h') \<and>
      test_datasets self' = Some [MapEpisodicDataset h' novel (num_test_episodes self)
        (map int [0..<length (novel_labels self)]) (class_to_label_dict self)
        (datamodule.episode_hparams self) False] \<and>
      (\<forall>s\<in>set base. \<exists>i<length (base_labels self).
         y (h s) = sort (base_labels self) ! i \<and> h' s = (h s)\<lparr>y := int i\<rparr>) \<and>
      (\<forall>s\<in>set novel. \<exists>i<length (novel_labels self).
         y (h s) = sort (novel_labels self) ! i \<and> h' s = (h s)\<lparr>y := int i\<rparr>) \<and>
      (\<forall>r. r \<notin> set base \<union> set novel \<longrightarrow> h' r = h r)"
  by (rule transfer_setup_ok [OF transfer_init_invariants(1) [OF init] db dn disj
        transfer_init_invariants(3) [OF init objs] transfer_init_invariants(2) [OF init]
        perm bn stage accepts])

text \<open>
  Claim C8.  First part: for a stage with distinct labels and a list of distinct samples
  whose labels are stage labels, \<^const>\<open>convert_to_local_labels\<close> returns the dictionary
  that sends the \<open>i\<close>-th smallest stage label to \<open>i\<close>, and in the store it leaves, every
  sample of the list has the index of its former label as its label while all other
  objects are untouched.  Second part: in the set-up of the transfer data module (labels
  of the two stages distinct and disjoint, samples distinct objects filed under their
  own labels, the shuffle a permutation, the dataset constructors accepting their
  arguments) each base and each novel sample is converted exactly once, and the episodic
  dataset of the novel stage is constructed on the store that holds the converted labels.
\<close>

theorem local_labels_once_per_stage:
  "(map_of (labels_split self) stage = Some stage_labels \<and> distinct stage_labels \<and>
    distinct samples \<and> (\<forall>s\<in>set samples. y (h s) \<in> set stage_labels) \<longrightarrow>
    (\<exists>h'. convert_to_local_labels self h samples stage =
             Inr (zip (sort stage_labels) [0..<length stage_labels], h') \<and>
           (\<forall>s\<in>set samples. \<exists>i<length stage_labels.
              y (h s) = sort stage_labels ! i \<and> h' s = (h s)\<lparr>y := int i\<rparr>) \<and>
           (\<forall>r. r \<notin> set samples \<longrightarrow> h' r = h r))) \<and>
   (labels_split dm = [(''base'', base_labels dm), (''novel'', novel_labels dm)] \<and>
    distinct (base_labels dm) \<and> distinct (novel_labels dm) \<and>
    set (base_labels dm) \<inter> set (novel_labels dm) = {} \<and>
    distinct (concat (map snd (data_list_by_label dm))) \<and>
    grouped_by_label h0 (data_list_by_label dm) \<and>
    (\<forall>xs. mset (shuffle xs) = mset xs) \<and>
    split_base_novel_samples dm = (base, novel) \<and>
    (run_stage = None \<or> run_stage = Some ''fit'') \<and> (\<forall>d. raises d = None) \<longrightarrow>
    (\<exists>dm' h'. GraphTransferDataModule_setup raises shuffle dm h0 run_stage = Inr (dm', h') \<and>
      test_datasets dm' = Some [MapEpisodicDataset h' novel (num_test_episodes dm)
        (map int [0..<length (novel_labels dm)]) (class_to_label_dict dm)
        (datamodule.episode_hparams dm) False] \<and>
      (\<forall>s\<in>set base. \<exists>i<length (base_labels dm).
         y (h0 s) = sort (base_labels dm) ! i \<and> h' s = (h0 s)\<lparr>y := int i\<rparr>) \<and>
      (\<forall>s\<in>set novel. \<exists>i<length (novel_labels dm).
         y (h0 s) = sort (novel_labels dm) ! i \<and> h' s = (h0 s)\<lparr>y := int i\<rparr>) \<and>
      (\<forall>r. r \<notin> set base \<union> set novel \<longrightarrow> h' r = h0 r)))"
  using convert_to_local_labels_ok [of self stage stage_labels samples h]
    transfer_setup_ok [of dm h0 shuffle base novel run_stage raises]
  by blast

lemma example_transfer_samples:
  "split_base_novel_samples example_transfer_datamodule = ([10, 11, 12, 13], [14, 15])"
  by (simp add: split_base_novel_samples_def example_transfer_datamodule_def flatten_def)

text \<open>
  Both parts of C8 at the example transfer data module.
\<close>

theorem local_labels_once_per_stage_witness:
  "(\<exists>h'. convert_to_local_labels example_transfer_datamodule example_heap [14, 15] ''novel'' =
             Inr (zip (sort [6]) [0..<length [6::int]], h') \<and>
           (\<forall>s\<in>set [14, 15]. \<exists>i<length [6::int].
              y (example_heap s) = sort [6] ! i \<and> h' s = (example_heap s)\<lparr>y := int i\<rparr>) \<and>
           (\<forall>r. r \<notin> set [14, 15] \<longrightarrow> h' r = example_heap r)) \<and>
   (\<exists>dm' h'. GraphTransferDataModule_setup accept_all id example_transfer_datamodule
        example_heap (Some ''fit'') = Inr (dm', h') \<and>
      test_datasets dm' = Some [MapEpisodicDataset h' [14, 15]
        (num_test_episodes example_transfer_datamodule)
        (map int [0..<length (novel_labels example_transfer_datamodule)])
        (class_to_label_dict example_transfer_datamodule)
        (datamodule.episode_hparams example_transfer_datamodule) False] \<and>
      (\<forall>s\<in>set [10, 11, 12, 13]. \<exists>i<length (base_labels example_transfer_datamodule).
         y (example_heap s) = sort (base_labels example_transfer_datamodule) ! i \<and>
         h' s = (example_heap s)\<lparr>y := int i\<rparr>) \<and>
      (\<forall>s\<in>set [14, 15]. \<exists>i<length (novel_labels example_transfer_datamodule).
         y (example_heap s) = sort (novel_labels example_transfer_datamodule) ! i \<and>
         h' s = (example_heap s)\<lparr>y := int i\<rparr>) \<and>
      (\<forall>r. r \<notin> set [10, 11, 12, 13] \<union> set [14, 15] \<longrightarrow> h' r = example_heap r))"
proof -
  have a: "map_of (labels_split example_transfer_datamodule) ''novel'' = Some [6] \<and>
      distinct [6::int] \<and> distinct [14::nat, 15] \<and>
      (\<forall>s\<in>set [14, 15]. y (example_heap s) \<in> set [6])"
    by (simp add: example_transfer_datamodule_def example_heap_def)
  have b: "labels_split example_transfer_datamodule =
        [(''base'', base_labels example_transfer_datamodule),
         (''novel'', novel_labels example_transfer_datamodule)] \<and>
      distinct (base_labels example_transfer_datamodule) \<and>
      distinct (novel_labels example_transfer_datamodule) \<and>
      set (base_labels example_transfer_datamodule) \<inter>
        set (novel_labels example_transfer_datamodule) = {} \<and>
      distinct (concat (map snd (data_list_by_label example_transfer_datamodule))) \<and>
      grouped_by_label example_heap (data_list_by_label example_transfer_datamodule) \<and>
      (\<forall>xs::nat list. mset (id xs) = mset xs) \<and>
      split_base_novel_samples example_transfer_datamodule = ([10, 11, 12, 13], [14, 15]) \<and>
      (Some ''fit'' = None \<or> Some ''fit'' = Some ''fit'') \<and> (\<forall>d. accept_all d = None)"
    by (simp add: example_transfer_samples accept_all_def)
      (simp add: example_transfer_datamodule_def grouped_by_label_def example_heap_def)
  from local_labels_once_per_stage [of example_transfer_datamodule "''novel''" "[6]" "[14, 15]"
      example_heap example_transfer_datamodule example_heap id "[10, 11, 12, 13]" "[14, 15]"
      "Some ''fit''" accept_all] a b
  show ?thesis by blast
qed

end
